theory Spec2Isabelle
  imports Complex_Main
begin

section \<open>Python values, strings and the ambient effects\<close>

text \<open>
  The values that reach the answer evaluator are decoded JSON scalars. Containers
  (\<open>dict\<close>, \<open>list\<close>) and floats are left out of \<open>pyval\<close>: their \<open>str()\<close> is Python's
  \<open>repr\<close>, which is not modelled. Strings are byte lists; \<open>lower\<close> and \<open>strip\<close> are
  modelled on ASCII, where Python's \<open>str.isspace\<close> holds for the bytes 9 to 13, 28 to 31
  and 32.
\<close>

datatype pyval = PNone | PBool bool | PInt int | PStr string

definition digit_char :: "nat \<Rightarrow> char" where
  "digit_char d = char_of (48 + d)"

fun str_nat :: "nat \<Rightarrow> string" where
  "str_nat n = (if n < 10 then [digit_char n] else str_nat (n div 10) @ [digit_char (n mod 10)])"

declare str_nat.simps [simp del]

definition str_int :: "int \<Rightarrow> string" where
  "str_int i = (if i < 0 then CHR ''-'' # str_nat (nat (- i)) else str_nat (nat i))"

fun py_str :: "pyval \<Rightarrow> string" where
  "py_str PNone = ''None''"
| "py_str (PBool b) = (if b then ''True'' else ''False'')"
| "py_str (PInt i) = str_int i"
| "py_str (PStr s) = s"

definition isspace :: "char \<Rightarrow> bool" where
  "isspace c = (let k = (of_char c :: nat) in (9 \<le> k \<and> k \<le> 13) \<or> (28 \<le> k \<and> k \<le> 32))"

definition strip :: "string \<Rightarrow> string" where
  "strip s = rev (dropWhile isspace (rev (dropWhile isspace s)))"

definition lower_char :: "char \<Rightarrow> char" where
  "lower_char c = (let k = (of_char c :: nat) in if 65 \<le> k \<and> k \<le> 90 then char_of (k + 32) else c)"

definition lower :: "string \<Rightarrow> string" where
  "lower s = map lower_char s"

text \<open>Python truthiness of an optional string: \<open>None\<close> and \<open>""\<close> are falsy.\<close>

fun truthy :: "string option \<Rightarrow> bool" where
  "truthy None = False"
| "truthy (Some s) = (s \<noteq> [])"

text \<open>\<open>xs[:n]\<close> for a Python int \<open>n\<close>: a negative bound counts from the end.\<close>

definition slice_to :: "int \<Rightarrow> 'a list \<Rightarrow> 'a list" where
  "slice_to n xs = (if 0 \<le> n then take (nat n) xs else take (length xs - nat (- n)) xs)"

datatype py_exn = TypeError | AttributeError | OverflowError | HTTPException nat string


section \<open>Python floats\<close>

text \<open>
  A Python \<open>float\<close> is an IEEE binary64 value, kept here as the real number it denotes.
  Every float operation of the source is the exact operation followed by \<open>round_double\<close>:
  rounding to 53 significant bits, ties to the even neighbour, with the fixed quantum
  \<open>2^-1074\<close> below \<open>2^-1022\<close>. A float literal such as \<open>0.1\<close> is \<open>round_double 0.1\<close>.
  Magnitudes from \<open>2^1024\<close> on, infinities and NaN are outside the model.
\<close>

definition pow2 :: "int \<Rightarrow> real" where
  "pow2 k = (if 0 \<le> k then 2 ^ nat k else 1 / 2 ^ nat (- k))"

definition round_half_even :: "real \<Rightarrow> int" where
  "round_half_even y =
     (let f = \<lfloor>y\<rfloor>; d = y - of_int f
      in if d < 1 / 2 then f else if 1 / 2 < d then f + 1 else if even f then f else f + 1)"

text \<open>The binary exponent of a positive value, found by halving or doubling it into
  \<open>[1, 2)\<close>; it is not taken below \<open>-1022\<close>, where the subnormal range begins.\<close>

fun halve :: "nat \<Rightarrow> real \<Rightarrow> int \<Rightarrow> int" where
  "halve 0 x e = e"
| "halve (Suc n) x e = (if x < 2 then e else halve n (x / 2) (e + 1))"

fun double :: "nat \<Rightarrow> real \<Rightarrow> int \<Rightarrow> int" where
  "double 0 x e = e"
| "double (Suc n) x e = (if 1 \<le> x then e else double n (x * 2) (e - 1))"

definition exponent :: "real \<Rightarrow> int" where
  "exponent x = (if 1 \<le> x then halve 1023 x 0 else double 1022 x 0)"

definition round_double :: "real \<Rightarrow> real" where
  "round_double x =
     (if x = 0 then 0
      else let q = pow2 (exponent \<bar>x\<bar> - 52) in of_int (round_half_even (x / q)) * q)"

definition float_add :: "real \<Rightarrow> real \<Rightarrow> real" where
  "float_add a b = round_double (a + b)"

definition float_sub :: "real \<Rightarrow> real \<Rightarrow> real" where
  "float_sub a b = round_double (a - b)"

text \<open>\<open>a / b\<close> on two Python ints is the correctly rounded quotient.\<close>

definition int_truediv :: "int \<Rightarrow> int \<Rightarrow> real" where
  "int_truediv a b = round_double (real_of_int a / real_of_int b)"


section \<open>Answer evaluation (quiz.py, evaluate\_answer)\<close>

definition evaluate_answer :: "string \<Rightarrow> pyval \<Rightarrow> pyval \<Rightarrow> string list option \<Rightarrow> bool" where
  "evaluate_answer question_type correct_answer user_answer acceptable_answers =
     (let acceptable = (case acceptable_answers of None \<Rightarrow> [] | Some xs \<Rightarrow> xs) in
      if question_type = ''recall'' then
        (let ua = lower (strip (py_str user_answer)) in
         if lower (strip (py_str correct_answer)) = ua then True
         else ua \<in> set (map lower acceptable))
      else lower (strip (py_str user_answer)) = lower (strip (py_str correct_answer)))"


section \<open>Tables (db.py) and the world a request runs in\<close>

text \<open>
  A \<open>datetime\<close> is an integer count of microseconds; \<open>timedelta(days=d)\<close> is
  \<open>d * 86400000000\<close>. Every write of a mastery row goes through \<open>update_mastery\<close>, which
  stores \<open>float(...)\<close> and \<open>int(...)\<close> values, so score and counters are not nullable here.
  The \<open>created_at\<close> column of a catalog row is nullable; \<open>add_family_member\<close> and
  \<open>add_knowledge_item\<close> always fill it.

  The database is the one the repository's tests run on (sqlite): an \<open>Integer\<close> column
  takes a signed 64-bit value and an insert or update of anything else raises
  \<open>OverflowError\<close>; string lengths are not enforced.
\<close>

definition integer_ok :: "int \<Rightarrow> bool" where
  "integer_ok v = (- (2 ^ 63) \<le> v \<and> v < 2 ^ 63)"

definition timedelta_days :: "int \<Rightarrow> int" where
  "timedelta_days d = d * 86400000000"

record family_row =
  f_id :: string
  f_patient_id :: string
  f_full_name :: string
  f_relationship :: string
  f_created_at :: "int option"

record knowledge_row =
  k_id :: string
  k_patient_id :: string
  k_category :: string
  k_label :: string
  k_value :: string
  k_sensitivity_level :: int
  k_is_active :: bool
  k_created_at :: "int option"

record session_row =
  s_id :: string
  s_patient_id :: string
  s_status :: "string option"
  s_total_questions :: "int option"
  s_score :: "real option"
  s_avg_response_time_ms :: "real option"

text \<open>
  The stored \<open>payload_json\<close> is kept decoded: \<open>json.loads\<close> of what \<open>json.dumps\<close> wrote.
  The fields are the keys \<open>submit_quiz\<close> and \<open>compute_mastery_update\<close> read.
\<close>

record payload =
  p_question_type :: string
  p_correct_answer :: pyval
  p_acceptable_answers :: "string list option"
  p_item_type :: "string option"
  p_item_id :: "string option"

record question_row =
  q_id :: string
  q_session_id :: string
  q_payload_json :: payload

record response_row =
  r_id :: string
  r_session_id :: string
  r_question_id :: string
  r_user_answer :: pyval
  r_correct :: bool
  r_response_time_ms :: int
  r_created_at :: int

record mastery_row =
  m_id :: string
  m_patient_id :: string
  m_item_type :: string
  m_item_id :: string
  m_mastery_score :: real
  m_consecutive_correct :: int
  m_consecutive_incorrect :: int
  m_last_seen_at :: "int option"
  m_next_due_at :: "int option"

text \<open>
  The world is the database behind the engine together with the two ambient sources the
  code draws from: the wall clock (\<open>datetime.utcnow()\<close>, the \<open>ticks\<close>-th reading of
  \<open>clock\<close>) and the random identifiers (\<open>uuid4()\<close>, the \<open>drawn\<close>-th element of \<open>uuids\<close>).
\<close>

record world =
  family_members :: "family_row list"
  knowledge_items :: "knowledge_row list"
  quiz_sessions :: "session_row list"
  quiz_questions :: "question_row list"
  quiz_responses :: "response_row list"
  mastery :: "mastery_row list"
  clock :: "nat \<Rightarrow> int"
  ticks :: nat
  uuids :: "nat \<Rightarrow> string"
  drawn :: nat

definition utcnow :: "world \<Rightarrow> int \<times> world" where
  "utcnow w = (clock w (ticks w), w\<lparr>ticks := ticks w + 1\<rparr>)"

definition uuid :: "world \<Rightarrow> string \<times> world" where
  "uuid w = (uuids w (drawn w), w\<lparr>drawn := drawn w + 1\<rparr>)"

definition get_mastery_row :: "world \<Rightarrow> string \<Rightarrow> string \<Rightarrow> string \<Rightarrow> mastery_row option" where
  "get_mastery_row w patient_id item_type item_id =
     find (\<lambda>m. m_patient_id m = patient_id \<and> m_item_type m = item_type \<and> m_item_id m = item_id)
       (mastery w)"


section \<open>Scheduler (quiz.py, compute\_mastery\_update)\<close>

text \<open>The thresholds are float literals, compared with a float score.\<close>

definition interval_days :: "real \<Rightarrow> int" where
  "interval_days score =
     (if score \<ge> round_double 0.8 then 14
      else if score \<ge> round_double 0.6 then 7
      else if score \<ge> round_double 0.4 then 4
      else if score \<ge> round_double 0.2 then 2
      else 1)"

record mastery_update =
  u_patient_id :: string
  u_item_type :: string
  u_item_id :: string
  u_mastery_score :: real
  u_consecutive_correct :: int
  u_consecutive_incorrect :: int
  u_last_seen_at :: int
  u_next_due_at :: int

definition compute_mastery_update ::
  "world \<Rightarrow> string \<Rightarrow> payload \<Rightarrow> bool \<Rightarrow> int \<Rightarrow> mastery_update option \<times> world" where
  "compute_mastery_update w patient_id pl correct response_time_ms =
     (if \<not> truthy (p_item_type pl) \<or> \<not> truthy (p_item_id pl) then (None, w)
      else
        let item_type = the (p_item_type pl);
            item_id = the (p_item_id pl);
            existing = get_mastery_row w patient_id item_type item_id;
            mastery_score = (case existing of Some e \<Rightarrow> m_mastery_score e | None \<Rightarrow> 0.0);
            consecutive_correct = (case existing of Some e \<Rightarrow> m_consecutive_correct e | None \<Rightarrow> 0);
            consecutive_incorrect = (case existing of Some e \<Rightarrow> m_consecutive_incorrect e | None \<Rightarrow> 0);
            (consecutive_correct, consecutive_incorrect, mastery_score) =
              (if correct then
                 (consecutive_correct + 1, 0,
                  (let s = min 1.0 (float_add mastery_score (round_double 0.1))
                   in if response_time_ms < 3000
                      then min 1.0 (float_add s (round_double 0.05)) else s))
               else (0, consecutive_incorrect + 1,
                     max 0.0 (float_sub mastery_score (round_double 0.05))));
            days = interval_days mastery_score;
            (t_due, w1) = utcnow w;
            next_due = t_due + timedelta_days days;
            (t_seen, w2) = utcnow w1
        in (Some \<lparr>u_patient_id = patient_id, u_item_type = item_type, u_item_id = item_id,
                  u_mastery_score = mastery_score,
                  u_consecutive_correct = consecutive_correct,
                  u_consecutive_incorrect = consecutive_incorrect,
                  u_last_seen_at = t_seen, u_next_due_at = next_due\<rparr>, w2))"


section \<open>Persistence helpers (db.py)\<close>

definition get_session :: "world \<Rightarrow> string \<Rightarrow> session_row option" where
  "get_session w session_id = find (\<lambda>s. s_id s = session_id) (quiz_sessions w)"

definition list_questions :: "world \<Rightarrow> string \<Rightarrow> question_row list" where
  "list_questions w session_id = filter (\<lambda>q. q_session_id q = session_id) (quiz_questions w)"

definition add_response ::
  "world \<Rightarrow> string \<Rightarrow> string \<Rightarrow> pyval \<Rightarrow> bool \<Rightarrow> int \<Rightarrow> (py_exn + unit) \<times> world" where
  "add_response w session_id question_id user_answer correct response_time_ms =
     (let (rid, w1) = uuid w;
          (now, w2) = utcnow w1
      in if \<not> integer_ok response_time_ms then (Inl OverflowError, w2)
         else (Inr (),
               w2\<lparr>quiz_responses := quiz_responses w2 @
                 [\<lparr>r_id = rid, r_session_id = session_id, r_question_id = question_id,
                   r_user_answer = user_answer, r_correct = correct,
                   r_response_time_ms = response_time_ms, r_created_at = now\<rparr>]\<rparr>))"

definition complete_session :: "world \<Rightarrow> string \<Rightarrow> real \<Rightarrow> real \<Rightarrow> world" where
  "complete_session w session_id score avg_response_time_ms =
     w\<lparr>quiz_sessions :=
         map (\<lambda>s. if s_id s = session_id
                   then s\<lparr>s_status := Some ''completed'', s_score := Some score,
                          s_avg_response_time_ms := Some avg_response_time_ms\<rparr>
                   else s)
             (quiz_sessions w)\<rparr>"

definition update_mastery :: "world \<Rightarrow> mastery_update \<Rightarrow> (py_exn + unit) \<times> world" where
  "update_mastery w pl =
     (let existing = get_mastery_row w (u_patient_id pl) (u_item_type pl) (u_item_id pl);
          (now, w1) = utcnow w;
          fits = (integer_ok (u_consecutive_correct pl) \<and> integer_ok (u_consecutive_incorrect pl))
      in case existing of
           Some e \<Rightarrow>
             if \<not> fits then (Inl OverflowError, w1)
             else (Inr (),
               w1\<lparr>mastery :=
                 map (\<lambda>m. if m_id m = m_id e
                           then m\<lparr>m_patient_id := u_patient_id pl, m_item_type := u_item_type pl,
                                  m_item_id := u_item_id pl,
                                  m_mastery_score := u_mastery_score pl,
                                  m_consecutive_correct := u_consecutive_correct pl,
                                  m_consecutive_incorrect := u_consecutive_incorrect pl,
                                  m_last_seen_at := Some (u_last_seen_at pl),
                                  m_next_due_at := Some (u_next_due_at pl)\<rparr>
                           else m)
                     (mastery w1)\<rparr>)
         | None \<Rightarrow>
             (let (mid, w2) = uuid w1
              in if \<not> fits then (Inl OverflowError, w2)
                 else (Inr (),
                   w2\<lparr>mastery := mastery w2 @
                    [\<lparr>m_id = mid, m_patient_id = u_patient_id pl, m_item_type = u_item_type pl,
                      m_item_id = u_item_id pl, m_mastery_score = u_mastery_score pl,
                      m_consecutive_correct = u_consecutive_correct pl,
                      m_consecutive_incorrect = u_consecutive_incorrect pl,
                      m_last_seen_at = Some (u_last_seen_at pl),
                      m_next_due_at = Some (u_next_due_at pl)\<rparr>]\<rparr>)))"

section \<open>Due-set resolution (db.py, due\_items)\<close>

text \<open>
  The returned dictionaries are either whole mastery rows or the small catalog entries the
  two loops build; a knowledge entry carries the sensitivity level.
\<close>

datatype due_entry = MasteryEntry mastery_row | FamilyEntry string | KnowledgeEntry string int

fun due_item_type :: "due_entry \<Rightarrow> string" where
  "due_item_type (MasteryEntry m) = m_item_type m"
| "due_item_type (FamilyEntry i) = ''family''"
| "due_item_type (KnowledgeEntry i s) = ''knowledge''"

fun due_item_id :: "due_entry \<Rightarrow> string" where
  "due_item_id (MasteryEntry m) = m_item_id m"
| "due_item_id (FamilyEntry i) = i"
| "due_item_id (KnowledgeEntry i s) = i"

definition due_now :: "int \<Rightarrow> mastery_row \<Rightarrow> bool" where
  "due_now now m = (case m_next_due_at m of None \<Rightarrow> True | Some t \<Rightarrow> t \<le> now)"

fun family_loop :: "string list \<Rightarrow> due_entry list \<Rightarrow> string set \<Rightarrow> due_entry list \<times> string set" where
  "family_loop [] due_list known_ids = (due_list, known_ids)"
| "family_loop (row # rows) due_list known_ids =
     (if row \<notin> known_ids
      then family_loop rows (due_list @ [FamilyEntry row]) (insert row known_ids)
      else family_loop rows due_list known_ids)"

fun knowledge_loop ::
  "(string \<times> int) list \<Rightarrow> due_entry list \<Rightarrow> string set \<Rightarrow> due_entry list \<times> string set" where
  "knowledge_loop [] due_list known_ids = (due_list, known_ids)"
| "knowledge_loop ((rid, sens) # rows) due_list known_ids =
     (if rid \<notin> known_ids
      then knowledge_loop rows (due_list @ [KnowledgeEntry rid sens]) (insert rid known_ids)
      else knowledge_loop rows due_list known_ids)"

definition due_items :: "world \<Rightarrow> string \<Rightarrow> due_entry list \<times> world" where
  "due_items w patient_id =
     (let (now, w1) = utcnow w;
          mastery_rows = filter (\<lambda>m. m_patient_id m = patient_id \<and> due_now now m) (mastery w1);
          due_list = map MasteryEntry mastery_rows;
          known_ids = set (map due_item_id due_list);
          family_rows = map f_id (filter (\<lambda>f. f_patient_id f = patient_id) (family_members w1));
          knowledge_rows = map (\<lambda>k. (k_id k, k_sensitivity_level k))
                             (filter (\<lambda>k. k_patient_id k = patient_id) (knowledge_items w1));
          (due_list, known_ids) = family_loop family_rows due_list known_ids;
          (due_list, known_ids) = knowledge_loop knowledge_rows due_list known_ids
      in (due_list, w1))"


section \<open>Quiz assembly (quiz.py, generate\_quiz\_questions)\<close>

datatype item = KnowledgeItem knowledge_row | FamilyItem family_row

fun item_ident :: "item \<Rightarrow> string" where
  "item_ident (KnowledgeItem k) = k_id k"
| "item_ident (FamilyItem f) = f_id f"

text \<open>\<open>item.get('label') or item.get('full_name')\<close>: an empty label is falsy, and a
  knowledge item has no \<open>full_name\<close>, so the result is \<open>None\<close> there.\<close>

fun label_or_full_name :: "item \<Rightarrow> pyval" where
  "label_or_full_name (KnowledgeItem k) = (if k_label k \<noteq> [] then PStr (k_label k) else PNone)"
| "label_or_full_name (FamilyItem f) = PStr (f_full_name f)"

fun value_or_full_name :: "item \<Rightarrow> pyval" where
  "value_or_full_name (KnowledgeItem k) = (if k_value k \<noteq> [] then PStr (k_value k) else PNone)"
| "value_or_full_name (FamilyItem f) = PStr (f_full_name f)"

record question =
  qn_id :: "string option"
  qn_question_type :: string
  qn_prompt :: string
  qn_options :: "pyval list option"
  qn_correct_answer :: pyval
  qn_item_type :: string
  qn_item_id :: string
  qn_difficulty :: int
  qn_acceptable_answers :: "string list option"

definition fallback_question :: "string \<Rightarrow> item \<Rightarrow> question" where
  "fallback_question qid it =
     \<lparr>qn_id = Some qid,
      qn_question_type = ''mcq'',
      qn_prompt = ''Who/What is '' @ py_str (label_or_full_name it) @ ''?'',
      qn_options = Some [value_or_full_name it, PStr ''Not sure''],
      qn_correct_answer = value_or_full_name it,
      qn_item_type = (case it of KnowledgeItem k \<Rightarrow> ''knowledge'' | FamilyItem f \<Rightarrow> ''family''),
      qn_item_id = item_ident it,
      qn_difficulty = 1,
      qn_acceptable_answers = Some []\<rparr>"

fun fallback_loop :: "item list \<Rightarrow> question list \<Rightarrow> world \<Rightarrow> question list \<times> world" where
  "fallback_loop [] questions w = (questions, w)"
| "fallback_loop (it # items) questions w =
     (let (qid, w1) = uuid w
      in fallback_loop items (questions @ [fallback_question qid it]) w1)"

definition fallback_questions :: "item list \<Rightarrow> item list \<Rightarrow> int \<Rightarrow> world \<Rightarrow> question list \<times> world" where
  "fallback_questions knowledge_items' family_members' n w =
     fallback_loop (slice_to n (knowledge_items' @ family_members')) [] w"

text \<open>
  The external generator is not part of the repository. What the code does with it depends
  only on how the call ends: \<open>_client()\<close> returns \<open>None\<close> (or the deployment name is unset);
  the call raises \<open>OpenAIError\<close>; the message content is \<open>None\<close>; \<open>json.loads\<close> raises
  \<open>JSONDecodeError\<close>; the content is JSON but not an object; or it is an object, with or
  without a \<open>"questions"\<close> key. The value under that key is taken to be a list of question
  dictionaries.

  Before the call, and outside the \<open>try\<close>, the request is built with \<open>json.dumps\<close> over the
  family rows, the filtered knowledge rows and the due entries. A \<open>datetime\<close> in any of
  them raises \<open>TypeError\<close>: a \<open>created_at\<close> that is set, or the \<open>last_seen_at\<close> or
  \<open>next_due_at\<close> of a mastery row.
\<close>

fun due_entry_dumps :: "due_entry \<Rightarrow> bool" where
  "due_entry_dumps (MasteryEntry m) = (m_last_seen_at m = None \<and> m_next_due_at m = None)"
| "due_entry_dumps (FamilyEntry i) = True"
| "due_entry_dumps (KnowledgeEntry i s) = True"

definition json_dumps_ok :: "family_row list \<Rightarrow> knowledge_row list \<Rightarrow> due_entry list \<Rightarrow> bool" where
  "json_dumps_ok fms kis dues =
     (list_all (\<lambda>f. f_created_at f = None) fms \<and>
      list_all (\<lambda>k. k_created_at k = None) kis \<and>
      list_all due_entry_dumps dues)"

datatype completion =
    RaisesOpenAIError
  | ContentNone
  | ContentNotJson
  | ContentJsonNonObject
  | ContentJsonObject "question list option"

datatype generator = NoClient | Client completion

fun due_loop ::
  "(string \<Rightarrow> item option) \<Rightarrow> (string \<Rightarrow> item option) \<Rightarrow> due_entry list \<Rightarrow>
   item list \<Rightarrow> string set \<Rightarrow> item list \<times> string set" where
  "due_loop knowledge_lookup family_lookup [] selected_items seen = (selected_items, seen)"
| "due_loop knowledge_lookup family_lookup (due # rest) selected_items seen =
     (let it = (if due_item_type due = ''knowledge'' then knowledge_lookup (due_item_id due)
                else if due_item_type due = ''family'' then family_lookup (due_item_id due)
                else None)
      in case it of
           Some i \<Rightarrow>
             if item_ident i \<notin> seen
             then due_loop knowledge_lookup family_lookup rest (selected_items @ [i])
                    (insert (item_ident i) seen)
             else due_loop knowledge_lookup family_lookup rest selected_items seen
         | None \<Rightarrow> due_loop knowledge_lookup family_lookup rest selected_items seen)"

fun fill_loop :: "int \<Rightarrow> item list \<Rightarrow> item list \<Rightarrow> string set \<Rightarrow> item list" where
  "fill_loop n [] selected_items seen = selected_items"
| "fill_loop n (it # rest) selected_items seen =
     (if item_ident it \<in> seen then fill_loop n rest selected_items seen
      else if int (length (selected_items @ [it])) \<ge> n then selected_items @ [it]
      else fill_loop n rest (selected_items @ [it]) (insert (item_ident it) seen))"

definition sensitive_filtered :: "bool \<Rightarrow> knowledge_row list \<Rightarrow> knowledge_row list" where
  "sensitive_filtered include_sensitive kis =
     filter (\<lambda>ki. include_sensitive \<or> k_sensitivity_level ki < 2) kis"

text \<open>A dictionary comprehension keeps the last row of each key.\<close>

definition lookup_by :: "('a \<Rightarrow> string) \<Rightarrow> 'a list \<Rightarrow> string \<Rightarrow> 'a option" where
  "lookup_by key rows = map_of (rev (map (\<lambda>r. (key r, r)) rows))"

definition items_pool ::
  "family_row list \<Rightarrow> knowledge_row list \<Rightarrow> due_entry list \<Rightarrow> int \<Rightarrow> bool \<Rightarrow> item list" where
  "items_pool fms kis dues n include_sensitive =
     (let filtered = sensitive_filtered include_sensitive kis;
          knowledge_lookup = map_option KnowledgeItem \<circ> lookup_by k_id filtered;
          family_lookup = map_option FamilyItem \<circ> lookup_by f_id fms;
          (selected_items, seen) = due_loop knowledge_lookup family_lookup dues [] {};
          selected_items = fill_loop n (map KnowledgeItem filtered @ map FamilyItem fms)
                             selected_items seen
      in slice_to n selected_items)"

definition generate_quiz_questions ::
  "generator \<Rightarrow> world \<Rightarrow> family_row list \<Rightarrow> knowledge_row list \<Rightarrow> due_entry list \<Rightarrow> int \<Rightarrow> bool \<Rightarrow>
   (py_exn + question list) \<times> world" where
  "generate_quiz_questions gen w fms kis dues n include_sensitive =
     (let pool = items_pool fms kis dues n include_sensitive in
      case gen of
        NoClient \<Rightarrow> (let (qs, w1) = fallback_questions pool [] n w in (Inr qs, w1))
      | Client reply \<Rightarrow>
          if \<not> json_dumps_ok fms (sensitive_filtered include_sensitive kis) dues
          then (Inl TypeError, w)
          else
          (case reply of
             RaisesOpenAIError \<Rightarrow> (let (qs, w1) = fallback_questions pool [] n w in (Inr qs, w1))
           | ContentNone \<Rightarrow> (Inl TypeError, w)
           | ContentNotJson \<Rightarrow> (let (qs, w1) = fallback_questions pool [] n w in (Inr qs, w1))
           | ContentJsonNonObject \<Rightarrow> (Inl AttributeError, w)
           | ContentJsonObject qs \<Rightarrow> (Inr (case qs of None \<Rightarrow> [] | Some l \<Rightarrow> l), w)))"


section \<open>Submission (main.py, submit\_quiz)\<close>

record submit_item =
  i_question_id :: string
  i_user_answer :: pyval
  i_response_time_ms :: int

record submit_response =
  o_session_id :: string
  o_score :: real
  o_total_questions :: nat
  o_correct :: int
  o_avg_response_time_ms :: real
  o_weak_items :: "string list"

fun submit_loop ::
  "(string \<Rightarrow> question_row option) \<Rightarrow> session_row \<Rightarrow> submit_item list \<Rightarrow>
   (string \<times> bool) list \<Rightarrow> int \<Rightarrow> int \<Rightarrow> world \<Rightarrow>
   (py_exn + (string \<times> bool) list \<times> int \<times> int) \<times> world" where
  "submit_loop qmap session [] results correct_count total_time w =
     (Inr (results, correct_count, total_time), w)"
| "submit_loop qmap session (submission # rest) results correct_count total_time w =
     (case qmap (i_question_id submission) of
        None \<Rightarrow> (Inl (HTTPException 400 ''Invalid question id''), w)
      | Some question \<Rightarrow>
          (let pl = q_payload_json question;
               is_correct = evaluate_answer (p_question_type pl) (p_correct_answer pl)
                              (i_user_answer submission) (p_acceptable_answers pl);
               correct_count = (if is_correct then correct_count + 1 else correct_count);
               total_time = total_time + i_response_time_ms submission
           in case add_response w (s_id session) (i_question_id submission)
                     (i_user_answer submission) is_correct (i_response_time_ms submission) of
                (Inl e, w1) \<Rightarrow> (Inl e, w1)
              | (Inr _, w1) \<Rightarrow>
                  (let (mastery_upd, w2) =
                         compute_mastery_update w1 (s_patient_id session) pl is_correct
                           (i_response_time_ms submission)
                   in case (case mastery_upd of Some u \<Rightarrow> update_mastery w2 u
                                              | None \<Rightarrow> (Inr (), w2)) of
                        (Inl e, w3) \<Rightarrow> (Inl e, w3)
                      | (Inr _, w3) \<Rightarrow>
                          submit_loop qmap session rest
                            (results @ [(i_question_id submission, is_correct)])
                            correct_count total_time w3)))"

definition submit_quiz ::
  "world \<Rightarrow> string \<Rightarrow> submit_item list \<Rightarrow> (py_exn + submit_response) \<times> world" where
  "submit_quiz w session_id submissions =
     (case get_session w session_id of
        None \<Rightarrow> (Inl (HTTPException 404 ''Session not found''), w)
      | Some session \<Rightarrow>
          (let questions = list_questions w session_id;
               qmap = lookup_by q_id questions
           in case submit_loop qmap session submissions [] 0 0 w of
                (Inl e, w1) \<Rightarrow> (Inl e, w1)
              | (Inr (results, correct_count, total_time), w1) \<Rightarrow>
                  (let score = int_truediv correct_count (int (max (length submissions) 1));
                       avg_time = int_truediv total_time (int (max (length submissions) 1));
                       w2 = complete_session w1 session_id score avg_time;
                       weak_items = map fst (filter (\<lambda>r. \<not> snd r) results)
                   in (Inr \<lparr>o_session_id = session_id, o_score = score,
                            o_total_questions = length submissions, o_correct = correct_count,
                            o_avg_response_time_ms = avg_time, o_weak_items = weak_items\<rparr>, w2))))"


section \<open>The specification's scheduler step and example data\<close>

text \<open>
  The update rule in the words of the specification's contract: the triple of score,
  consecutive-correct and consecutive-incorrect after one answer, from the triple before.
  A correct answer adds 0.10 and clamps at 1.0, a fast one then adds a further 0.05 and
  clamps again; an incorrect answer subtracts 0.05 and clamps at 0.0. The additions are
  float additions. It is compared with \<open>compute_mastery_update\<close> below.
\<close>

definition spec_scheduler_step :: "real \<Rightarrow> int \<Rightarrow> int \<Rightarrow> bool \<Rightarrow> int \<Rightarrow> real \<times> int \<times> int" where
  "spec_scheduler_step s cc ci correct response_time_ms =
     (if correct
      then (let s1 = min 1 (float_add s (round_double 0.1))
            in if response_time_ms < 3000 then min 1 (float_add s1 (round_double 0.05)) else s1,
            cc + 1, 0)
      else (max 0 (float_sub s (round_double 0.05)), 0, ci + 1))"

text \<open>The score the specification's testable properties name, in exact arithmetic.\<close>

definition exact_score :: "real \<Rightarrow> bool \<Rightarrow> int \<Rightarrow> real" where
  "exact_score s correct response_time_ms =
     (if correct
      then (if response_time_ms < 3000 then min 1 (s + 0.15) else min 1 (s + 0.10))
      else max 0 (s - 0.05))"

definition scheduled :: "mastery_update \<Rightarrow> real \<times> int \<times> int" where
  "scheduled u = (u_mastery_score u, u_consecutive_correct u, u_consecutive_incorrect u)"

text \<open>One patient with a family member, two knowledge facts (one of them sensitive), a
  session of two questions and a mastery row for the family member that is due in the
  future.\<close>

definition ann :: family_row where
  "ann = \<lparr>f_id = ''f1'', f_patient_id = ''p1'', f_full_name = ''Ann'',
          f_relationship = ''daughter'', f_created_at = None\<rparr>"

definition colour :: knowledge_row where
  "colour = \<lparr>k_id = ''k1'', k_patient_id = ''p1'', k_category = ''personal'',
             k_label = ''favorite color'', k_value = ''blue'', k_sensitivity_level = 0,
             k_is_active = True, k_created_at = None\<rparr>"

definition diagnosis :: knowledge_row where
  "diagnosis = \<lparr>k_id = ''k2'', k_patient_id = ''p1'', k_category = ''medical'',
                k_label = ''diagnosis'', k_value = ''dementia'', k_sensitivity_level = 3,
                k_is_active = True, k_created_at = None\<rparr>"

definition colour_question :: question_row where
  "colour_question = \<lparr>q_id = ''q1'', q_session_id = ''s1'',
      q_payload_json = \<lparr>p_question_type = ''recall'', p_correct_answer = PStr ''blue'',
         p_acceptable_answers = Some [''azure''], p_item_type = Some ''knowledge'',
         p_item_id = Some ''k1''\<rparr>\<rparr>"

definition ann_question :: question_row where
  "ann_question = \<lparr>q_id = ''q2'', q_session_id = ''s1'',
      q_payload_json = \<lparr>p_question_type = ''mcq'', p_correct_answer = PStr ''Ann'',
         p_acceptable_answers = Some [], p_item_type = Some ''family'',
         p_item_id = Some ''f1''\<rparr>\<rparr>"

definition ann_mastery :: mastery_row where
  "ann_mastery = \<lparr>m_id = ''m1'', m_patient_id = ''p1'', m_item_type = ''family'',
      m_item_id = ''f1'', m_mastery_score = 0.9, m_consecutive_correct = 3,
      m_consecutive_incorrect = 0, m_last_seen_at = Some 0, m_next_due_at = Some 1000000\<rparr>"

definition example_session :: session_row where
  "example_session = \<lparr>s_id = ''s1'', s_patient_id = ''p1'', s_status = Some ''active'',
      s_total_questions = Some 2, s_score = None, s_avg_response_time_ms = None\<rparr>"

definition example_world :: world where
  "example_world = \<lparr>family_members = [ann], knowledge_items = [colour, diagnosis],
      quiz_sessions = [example_session],
      quiz_questions = [colour_question, ann_question],
      quiz_responses = [], mastery = [ann_mastery],
      clock = (\<lambda>n. 10 + int n), ticks = 0,
      uuids = (\<lambda>n. ''id-'' @ str_nat n), drawn = 0\<rparr>"

definition blue_fast :: submit_item where
  "blue_fast = \<lparr>i_question_id = ''q1'', i_user_answer = PStr ''Blue '', i_response_time_ms = 1000\<rparr>"

definition unknown_question :: submit_item where
  "unknown_question = \<lparr>i_question_id = ''zz'', i_user_answer = PStr ''Ann'',
                        i_response_time_ms = 1000\<rparr>"


text \<open>A question as a provider could return it, pointing at the sensitive fact.\<close>

definition diagnosis_question :: question where
  "diagnosis_question = \<lparr>qn_id = None, qn_question_type = ''recall'',
      qn_prompt = ''What is your diagnosis?'', qn_options = None,
      qn_correct_answer = PStr ''dementia'', qn_item_type = ''knowledge'',
      qn_item_id = ''k2'', qn_difficulty = 1, qn_acceptable_answers = Some []\<rparr>"

definition colour_draft :: question where
  "colour_draft = \<lparr>qn_id = None, qn_question_type = ''recall'',
      qn_prompt = ''What is your favorite color?'', qn_options = None,
      qn_correct_answer = PStr ''blue'', qn_item_type = ''knowledge'',
      qn_item_id = ''k1'', qn_difficulty = 1, qn_acceptable_answers = Some [''azure'']\<rparr>"

text \<open>The generator outcomes after which the code calls \<open>_fallback_questions\<close>.\<close>

fun uses_fallback :: "generator \<Rightarrow> bool" where
  "uses_fallback NoClient = True"
| "uses_fallback (Client RaisesOpenAIError) = True"
| "uses_fallback (Client ContentNotJson) = True"
| "uses_fallback (Client ContentNone) = False"
| "uses_fallback (Client ContentJsonNonObject) = False"
| "uses_fallback (Client (ContentJsonObject qs)) = False"

text \<open>The catalog the fill loop walks: filtered knowledge items, then family members.\<close>

definition catalog :: "bool \<Rightarrow> knowledge_row list \<Rightarrow> family_row list \<Rightarrow> item list" where
  "catalog include_sensitive kis fms =
     map KnowledgeItem (sensitive_filtered include_sensitive kis) @ map FamilyItem fms"

text \<open>The verdict \<open>submit_quiz\<close> reaches for one submission whose question is in \<open>qmap\<close>.\<close>

definition verdict :: "(string \<Rightarrow> question_row option) \<Rightarrow> submit_item \<Rightarrow> bool" where
  "verdict qmap submission =
     (case qmap (i_question_id submission) of
        None \<Rightarrow> False
      | Some question \<Rightarrow>
          evaluate_answer (p_question_type (q_payload_json question))
            (p_correct_answer (q_payload_json question)) (i_user_answer submission)
            (p_acceptable_answers (q_payload_json question)))"






text \<open>A stored score of 0.25, as two correct answers (one slow, one fast) leave it.\<close>

definition quarter_world :: world where
  "quarter_world = example_world\<lparr>mastery := [ann_mastery\<lparr>m_mastery_score := 0.25\<rparr>]\<rparr>"

text \<open>A patient whose only catalog row is the sensitive fact, stored with its timestamp
  and never reviewed.\<close>

definition diagnosis_stored :: knowledge_row where
  "diagnosis_stored = diagnosis\<lparr>k_created_at := Some 3\<rparr>"

definition sensitive_world :: world where
  "sensitive_world = example_world\<lparr>family_members := [], knowledge_items := [diagnosis_stored],
      quiz_sessions := [], quiz_questions := [], mastery := []\<rparr>"



section \<open>Float rounding\<close>

lemma pow2_pos: "0 < pow2 k"
  by (simp add: pow2_def)

lemma pow2_Suc: "pow2 (k + 1) = 2 * pow2 k"
proof (cases "0 \<le> k")
  case True
  then have "nat (k + 1) = Suc (nat k)" by simp
  then show ?thesis using True by (simp add: pow2_def)
next
  case False
  then have "nat (- k) = Suc (nat (- (k + 1)))" by simp
  then show ?thesis using False by (simp add: pow2_def)
qed

lemma pow2_mono: "a \<le> b \<Longrightarrow> pow2 a \<le> pow2 b"
proof -
  assume "a \<le> b"
  then obtain n where b: "b = a + int n" by (metis zle_iff_zadd)
  have "pow2 a \<le> pow2 (a + int n)"
  proof (induction n)
    case 0
    show ?case by simp
  next
    case (Suc n)
    have "a + int (Suc n) = (a + int n) + 1" by simp
    then have "pow2 (a + int (Suc n)) = 2 * pow2 (a + int n)"
      by (simp only: pow2_Suc)
    then show ?case using Suc pow2_pos [of "a + int n"] by simp
  qed
  then show ?thesis unfolding b .
qed

lemma double_binade:
  "pow2 (- int k) \<le> x \<Longrightarrow> x < pow2 (1 - int k) \<Longrightarrow> k \<le> n \<Longrightarrow> double n x e = e - int k"
proof (induction n arbitrary: x e k)
  case 0
  then show ?case by simp
next
  case (Suc n)
  show ?case
  proof (cases "1 \<le> x")
    case True
    have "k = 0"
    proof (rule ccontr)
      assume "k \<noteq> 0"
      then have "1 - int k \<le> 0" by simp
      then have "pow2 (1 - int k) \<le> pow2 0" by (rule pow2_mono)
      then show False using Suc.prems(2) True by (simp add: pow2_def)
    qed
    then show ?thesis using True by simp
  next
    case False
    have "k \<noteq> 0"
    proof
      assume "k = 0"
      then show False using Suc.prems(1) False by (simp add: pow2_def)
    qed
    then obtain j where k: "k = Suc j" by (cases k) simp_all
    have a: "pow2 (- int j) \<le> x * 2"
      using Suc.prems(1) pow2_Suc [of "- int k"] unfolding k by simp
    have b: "x * 2 < pow2 (1 - int j)"
      using Suc.prems(2) pow2_Suc [of "1 - int k"] unfolding k by simp
    have "double n (x * 2) (e - 1) = e - 1 - int j"
      using a b Suc.prems(3) unfolding k by (intro Suc.IH) simp_all
    then show ?thesis using False unfolding k by simp
  qed
qed

lemma halve_binade:
  "pow2 (int k) \<le> x \<Longrightarrow> x < pow2 (int k + 1) \<Longrightarrow> k \<le> n \<Longrightarrow> halve n x e = e + int k"
proof (induction n arbitrary: x e k)
  case 0
  then show ?case by simp
next
  case (Suc n)
  show ?case
  proof (cases "x < 2")
    case True
    have "k = 0"
    proof (rule ccontr)
      assume "k \<noteq> 0"
      then have "1 \<le> int k" by simp
      then have "pow2 1 \<le> pow2 (int k)" by (rule pow2_mono)
      then show False using Suc.prems(1) True by (simp add: pow2_def)
    qed
    then show ?thesis using True by simp
  next
    case False
    have "k \<noteq> 0"
    proof
      assume "k = 0"
      then show False using Suc.prems(2) False by (simp add: pow2_def)
    qed
    then obtain j where k: "k = Suc j" by (cases k) simp_all
    have a: "pow2 (int j) \<le> x / 2"
      using Suc.prems(1) pow2_Suc [of "int j"] unfolding k by (simp add: add.commute)
    have b: "x / 2 < pow2 (int j + 1)"
      using Suc.prems(2) pow2_Suc [of "int j + 1"] unfolding k by (simp add: add.commute)
    have "halve n (x / 2) (e + 1) = e + 1 + int j"
      using a b Suc.prems(3) unfolding k by (intro Suc.IH) simp_all
    then show ?thesis using False unfolding k by simp
  qed
qed

lemma exponent_binade:
  assumes lo: "pow2 e \<le> x" and hi: "x < pow2 (e + 1)" and n: "- 1022 \<le> e" "e \<le> 1023"
  shows "exponent x = e"
proof (cases "0 \<le> e")
  case True
  have "pow2 0 = 1" by (simp add: pow2_def)
  moreover have "pow2 0 \<le> pow2 e" using True by (rule pow2_mono)
  ultimately have one: "1 \<le> x" using lo by linarith
  have "halve 1023 x 0 = 0 + int (nat e)"
    using lo hi n True by (intro halve_binade) simp_all
  then show ?thesis using one True by (simp add: exponent_def)
next
  case False
  then have "e + 1 \<le> 0" by simp
  then have "pow2 (e + 1) \<le> pow2 0" by (rule pow2_mono)
  then have less: "\<not> 1 \<le> x" using hi by (simp add: pow2_def)
  have "double 1022 x 0 = 0 - int (nat (- e))"
    using lo hi n False by (intro double_binade) (simp_all add: algebra_simps)
  then show ?thesis using less False by (simp add: exponent_def)
qed

lemma double_le: "double n x e \<le> e"
proof (induction n arbitrary: x e)
  case 0
  show ?case by simp
next
  case (Suc n)
  have "double n (x * 2) (e - 1) \<le> e - 1" by (rule Suc)
  then show ?case by simp
qed

lemma exponent_small: "x < 2 \<Longrightarrow> exponent x \<le> 0"
proof (cases "1 \<le> x")
  case True
  assume "x < 2"
  have "(1023::nat) = Suc 1022" by simp
  then have "halve 1023 x 0 = 0" using \<open>x < 2\<close> by (simp only: halve.simps if_True)
  then show ?thesis using True by (simp add: exponent_def)
next
  case False
  then show ?thesis using double_le [of 1022 x 0] by (simp add: exponent_def)
qed

lemma round_half_even_error: "\<bar>of_int (round_half_even y) - y\<bar> \<le> 1 / 2"
proof -
  have "of_int \<lfloor>y\<rfloor> \<le> y" and "y < of_int \<lfloor>y\<rfloor> + 1" by linarith+
  then show ?thesis
    by (auto simp add: round_half_even_def Let_def abs_le_iff)
qed

lemma round_double_error:
  assumes "\<bar>x\<bar> < 2"
  shows "\<bar>round_double x - x\<bar> \<le> 1 / 2 ^ 53"
proof (cases "x = 0")
  case True
  then show ?thesis by (simp add: round_double_def)
next
  case False
  let ?q = "pow2 (exponent \<bar>x\<bar> - 52)"
  have q: "0 < ?q" by (rule pow2_pos)
  have "exponent \<bar>x\<bar> - 52 \<le> - 52" using exponent_small [OF assms] by simp
  then have "?q \<le> pow2 (- 52)" by (rule pow2_mono)
  then have qs: "?q \<le> 1 / 2 ^ 52" by (simp add: pow2_def)
  have "round_double x - x = (of_int (round_half_even (x / ?q)) - x / ?q) * ?q"
    using False q by (simp add: round_double_def Let_def algebra_simps)
  then have "\<bar>round_double x - x\<bar> = \<bar>of_int (round_half_even (x / ?q)) - x / ?q\<bar> * ?q"
    using q by (simp add: abs_mult)
  also have "\<dots> \<le> (1 / 2) * ?q"
    using round_half_even_error [of "x / ?q"] q by (intro mult_right_mono) simp_all
  also have "\<dots> \<le> (1 / 2) * (1 / 2 ^ 52)"
    using qs by simp
  finally show ?thesis by simp
qed

lemma round_double_binade:
  assumes "pow2 e \<le> \<bar>x\<bar>" and "\<bar>x\<bar> < pow2 (e + 1)" and "- 1022 \<le> e" "e \<le> 1023"
  shows "round_double x = of_int (round_half_even (x / pow2 (e - 52))) * pow2 (e - 52)"
proof -
  have "x \<noteq> 0" using assms(1) pow2_pos [of e] by auto
  then show ?thesis
    by (simp add: round_double_def Let_def exponent_binade [OF assms])
qed

lemma round_double_tenth: "round_double 0.1 = 3602879701896397 / 36028797018963968"
  by code_simp

lemma round_double_twentieth: "round_double 0.05 = 3602879701896397 / 72057594037927936"
  by code_simp

lemma round_double_error_53:
  "\<bar>x\<bar> < 2 \<Longrightarrow> \<bar>round_double x - x\<bar> \<le> 1 / 9007199254740992"
  using round_double_error [of x] by simp


section \<open>The scheduler\<close>

lemma fast_bonus: "min 1 (min 1 (s + 0.1) + 0.05) = min 1 (s + 0.15 :: real)"
  by (simp add: min_def)

lemma interval_thresholds:
  "round_double 0.2 = 3602879701896397 / 18014398509481984"
  "round_double 0.4 = 3602879701896397 / 9007199254740992"
  "round_double 0.6 = 5404319552844595 / 9007199254740992"
  "round_double 0.8 = 3602879701896397 / 4503599627370496"
  by code_simp+

lemma interval_days_mono: "s1 \<le> s2 \<Longrightarrow> interval_days s1 \<le> interval_days s2"
  unfolding interval_days_def interval_thresholds by simp

text \<open>
  The float literal \<open>0.6\<close> lies below the decimal 0.6, and the score \<open>0.5 + 0.1\<close> is that
  float: it is given 7 days.
\<close>

lemma threshold_below_decimal:
  "round_double 0.6 < 0.6 \<and> float_add 0.5 (round_double 0.1) = round_double 0.6 \<and>
   interval_days (float_add 0.5 (round_double 0.1)) = 7"
  by code_simp

lemma example_item_refs:
  "truthy (p_item_type (q_payload_json ann_question))"
  "truthy (p_item_id (q_payload_json ann_question))"
  "truthy (p_item_type (q_payload_json colour_question))"
  "truthy (p_item_id (q_payload_json colour_question))"
  by (simp_all add: ann_question_def colour_question_def)

lemma example_lookups:
  "get_mastery_row example_world ''p1'' (the (p_item_type (q_payload_json ann_question)))
     (the (p_item_id (q_payload_json ann_question))) = Some ann_mastery"
  "get_mastery_row example_world ''p1'' (the (p_item_type (q_payload_json colour_question)))
     (the (p_item_id (q_payload_json colour_question))) = None"
  by (simp_all add: get_mastery_row_def example_world_def ann_question_def colour_question_def
        ann_mastery_def)

lemma slow_step_error:
  assumes "0 \<le> s" and "s \<le> 1"
  shows "\<bar>min 1 (float_add s (round_double 0.1)) - min 1 (s + 0.1)\<bar> \<le> 1 / 4503599627370496"
    and "0 \<le> min 1 (float_add s (round_double 0.1))"
proof -
  let ?a = "3602879701896397 / 36028797018963968 :: real"
  have "\<bar>s + ?a\<bar> < 2" using assms by linarith
  then have r: "\<bar>round_double (s + ?a) - (s + ?a)\<bar> \<le> 1 / 9007199254740992"
    by (rule round_double_error_53)
  have f: "float_add s (round_double 0.1) = round_double (s + ?a)"
    by (simp only: float_add_def round_double_tenth)
  show "\<bar>min 1 (float_add s (round_double 0.1)) - min 1 (s + 0.1)\<bar> \<le> 1 / 4503599627370496"
    unfolding f using r by linarith
  show "0 \<le> min 1 (float_add s (round_double 0.1))"
    unfolding f using r assms by linarith
qed

lemma fast_step_error:
  assumes "0 \<le> s" and "s \<le> 1"
  shows "\<bar>min 1 (float_add (min 1 (float_add s (round_double 0.1))) (round_double 0.05))
          - min 1 (s + 0.15)\<bar> \<le> 1 / 2251799813685248"
proof -
  let ?b = "3602879701896397 / 72057594037927936 :: real"
  define s1 where "s1 = min 1 (float_add s (round_double 0.1))"
  have s1: "\<bar>s1 - min 1 (s + 0.1)\<bar> \<le> 1 / 4503599627370496" "0 \<le> s1" "s1 \<le> 1"
    using slow_step_error [OF assms] by (simp_all add: s1_def)
  have "\<bar>s1 + ?b\<bar> < 2" using s1 by linarith
  then have r: "\<bar>round_double (s1 + ?b) - (s1 + ?b)\<bar> \<le> 1 / 9007199254740992"
    by (rule round_double_error_53)
  have f: "float_add s1 (round_double 0.05) = round_double (s1 + ?b)"
    by (simp only: float_add_def round_double_twentieth)
  have d: "(0.15::real) = 3 / 20" by simp
  have "\<bar>min 1 (float_add s1 (round_double 0.05)) - min 1 (s + 0.15)\<bar> \<le> 1 / 2251799813685248"
    unfolding f unfolding d using r s1 by linarith
  then show ?thesis by (simp only: s1_def)
qed

lemma incorrect_step_error:
  assumes "0 \<le> s" and "s \<le> 1"
  shows "\<bar>max 0 (float_sub s (round_double 0.05)) - max 0 (s - 0.05)\<bar> \<le> 1 / 4503599627370496"
proof -
  let ?b = "3602879701896397 / 72057594037927936 :: real"
  have "\<bar>s - ?b\<bar> < 2" using assms by linarith
  then have r: "\<bar>round_double (s - ?b) - (s - ?b)\<bar> \<le> 1 / 9007199254740992"
    by (rule round_double_error_53)
  have f: "float_sub s (round_double 0.05) = round_double (s - ?b)"
    by (simp only: float_sub_def round_double_twentieth)
  have d: "(0.05::real) = 1 / 20" by simp
  show ?thesis unfolding f unfolding d using r by linarith
qed

lemma spec_step_error:
  assumes "0 \<le> s" and "s \<le> 1"
  shows "\<bar>fst (spec_scheduler_step s cc ci correct rt) - exact_score s correct rt\<bar> \<le> 1 / 2 ^ 51"
proof -
  have p: "(1::real) / 2 ^ 51 = 1 / 2251799813685248" by simp
  show ?thesis
  proof (cases correct)
    case False
    have "\<bar>max 0 (float_sub s (round_double 0.05)) - max 0 (s - 0.05)\<bar> \<le> 1 / 2251799813685248"
      using incorrect_step_error [OF assms] by linarith
    with False show ?thesis
      by (simp only: spec_scheduler_step_def exact_score_def p if_False fst_conv)
  next
    case True
    show ?thesis
    proof (cases "rt < 3000")
      case fast: True
      from True fast fast_step_error [OF assms] show ?thesis
        by (simp only: spec_scheduler_step_def exact_score_def p if_True fst_conv Let_def)
    next
      case slow: False
      have "\<bar>min 1 (float_add s (round_double 0.1)) - min 1 (s + 0.10)\<bar> \<le> 1 / 2251799813685248"
        using slow_step_error(1) [OF assms] by simp
      with True slow show ?thesis
        by (simp only: spec_scheduler_step_def exact_score_def p if_True if_False fst_conv Let_def)
    qed
  qed
qed

lemma compute_mastery_update_step:
  assumes "truthy (p_item_type pl)" and "truthy (p_item_id pl)"
  shows "\<exists>u. fst (compute_mastery_update w pid pl correct rt) = Some u \<and>
           scheduled u =
             (case get_mastery_row w pid (the (p_item_type pl)) (the (p_item_id pl)) of
                Some e \<Rightarrow> spec_scheduler_step (m_mastery_score e) (m_consecutive_correct e)
                            (m_consecutive_incorrect e) correct rt
              | None \<Rightarrow> spec_scheduler_step 0 0 0 correct rt)"
  using assms
  by (auto simp add: compute_mastery_update_def utcnow_def Let_def scheduled_def
        spec_scheduler_step_def split: prod.splits option.splits)

lemma quarter_lookup:
  "get_mastery_row quarter_world ''p1'' (the (p_item_type (q_payload_json ann_question)))
     (the (p_item_id (q_payload_json ann_question))) = Some (ann_mastery\<lparr>m_mastery_score := 0.25\<rparr>)"
  by (simp add: get_mastery_row_def quarter_world_def example_world_def ann_question_def
        ann_mastery_def)

text \<open>
  The stored score 0.25 is what the scheduler itself leaves after a slow and then a fast
  correct answer on an item with no record.
\<close>

lemma quarter_reachable:
  "fst (spec_scheduler_step (fst (spec_scheduler_step 0 0 0 True 5000)) 1 0 True 1000) = 0.25"
  by code_simp

text \<open>
  Claim C1, as stated, gives the score after a fast correct answer as \<open>min 1 (s + 0.15)\<close>.
  The code adds 0.10 and then 0.05 in two float additions, each rounded. From the stored
  score 0.25 the result is 7205759403792793 / 18014398509481984, the float just below 0.4,
  and not \<open>min 1 (0.25 + 0.15)\<close>; it is neither the float nearest to 0.4 nor the float
  sum of 0.25 and 0.15, and the interval computed from it is 2 days where the float 0.4
  gives 4.
\<close>

theorem fast_answer_misses_stated_score:
  "get_mastery_row quarter_world ''p1'' (the (p_item_type (q_payload_json ann_question)))
     (the (p_item_id (q_payload_json ann_question))) = Some (ann_mastery\<lparr>m_mastery_score := 0.25\<rparr>) \<and>
   map_option u_mastery_score
     (fst (compute_mastery_update quarter_world ''p1'' (q_payload_json ann_question) True 1000))
     = Some (7205759403792793 / 18014398509481984) \<and>
   (7205759403792793 / 18014398509481984 :: real) \<noteq> min 1 (0.25 + 0.15) \<and>
   (7205759403792793 / 18014398509481984 :: real) \<noteq> round_double (min 1 (0.25 + 0.15)) \<and>
   (7205759403792793 / 18014398509481984 :: real) \<noteq> min 1 (float_add 0.25 (round_double 0.15)) \<and>
   interval_days (7205759403792793 / 18014398509481984) = 2 \<and>
   interval_days (round_double (min 1 (0.25 + 0.15))) = 4"
  by code_simp

text \<open>
  Claim C1, amended. Whenever the question payload carries an item reference, the scheduler
  returns a record. Its score and streak counters are the float step applied to the stored
  record: on a correct answer the score becomes the float sum of the stored score and 0.10,
  capped at 1, and when the response took less than 3000 ms the float sum of that and 0.05,
  capped at 1; consecutive-correct grows by one and consecutive-incorrect becomes zero. On
  an incorrect answer the score becomes the float difference of the stored score and 0.05,
  floored at 0, consecutive-incorrect grows by one and consecutive-correct becomes zero.
  Without a stored record the step starts from score 0 and zero counters. For a stored
  score on the unit interval the new score is within \<open>1 / 2 ^ 51\<close> of the exact
  \<open>min 1 (s + 0.10)\<close>, \<open>min 1 (s + 0.15)\<close> or \<open>max 0 (s - 0.05)\<close>.
\<close>

theorem scheduler_float_update_rule:
  assumes "truthy (p_item_type pl)" and "truthy (p_item_id pl)"
  shows "(\<forall>e. get_mastery_row w pid (the (p_item_type pl)) (the (p_item_id pl)) = Some e \<longrightarrow>
            (\<exists>u. fst (compute_mastery_update w pid pl correct rt) = Some u \<and>
                 scheduled u = spec_scheduler_step (m_mastery_score e) (m_consecutive_correct e)
                                 (m_consecutive_incorrect e) correct rt \<and>
                 (0 \<le> m_mastery_score e \<and> m_mastery_score e \<le> 1 \<longrightarrow>
                    \<bar>u_mastery_score u - exact_score (m_mastery_score e) correct rt\<bar>
                      \<le> 1 / 2 ^ 51))) \<and>
         (get_mastery_row w pid (the (p_item_type pl)) (the (p_item_id pl)) = None \<longrightarrow>
            (\<exists>u. fst (compute_mastery_update w pid pl correct rt) = Some u \<and>
                 scheduled u = spec_scheduler_step 0 0 0 correct rt \<and>
                 \<bar>u_mastery_score u - exact_score 0 correct rt\<bar> \<le> 1 / 2 ^ 51))"
proof -
  from compute_mastery_update_step [OF assms, of w pid correct rt]
  obtain u where u: "fst (compute_mastery_update w pid pl correct rt) = Some u"
    and s: "scheduled u =
             (case get_mastery_row w pid (the (p_item_type pl)) (the (p_item_id pl)) of
                Some e \<Rightarrow> spec_scheduler_step (m_mastery_score e) (m_consecutive_correct e)
                            (m_consecutive_incorrect e) correct rt
              | None \<Rightarrow> spec_scheduler_step 0 0 0 correct rt)"
    by blast
  have f: "u_mastery_score u = fst (scheduled u)" by (simp add: scheduled_def)
  show ?thesis
  proof (cases "get_mastery_row w pid (the (p_item_type pl)) (the (p_item_id pl))")
    case None
    have "\<bar>fst (spec_scheduler_step 0 0 0 correct rt) - exact_score 0 correct rt\<bar> \<le> 1 / 2 ^ 51"
      by (rule spec_step_error) simp_all
    with None u s f show ?thesis by simp
  next
    case (Some e)
    have "0 \<le> m_mastery_score e \<and> m_mastery_score e \<le> 1 \<longrightarrow>
            \<bar>fst (spec_scheduler_step (m_mastery_score e) (m_consecutive_correct e)
                   (m_consecutive_incorrect e) correct rt)
              - exact_score (m_mastery_score e) correct rt\<bar> \<le> 1 / 2 ^ 51"
      using spec_step_error by blast
    with Some u s f show ?thesis by simp
  qed
qed

theorem scheduler_float_update_rule_witness:
  "truthy (p_item_type (q_payload_json ann_question)) \<and>
   truthy (p_item_id (q_payload_json ann_question)) \<and>
   truthy (p_item_type (q_payload_json colour_question)) \<and>
   truthy (p_item_id (q_payload_json colour_question)) \<and>
   (\<exists>u. fst (compute_mastery_update quarter_world ''p1'' (q_payload_json ann_question) True 1000)
           = Some u \<and>
        scheduled u = (7205759403792793 / 18014398509481984, 4, 0) \<and>
        \<bar>u_mastery_score u - 0.4\<bar> \<le> 1 / 2 ^ 51) \<and>
   (\<exists>u. fst (compute_mastery_update example_world ''p1'' (q_payload_json colour_question) True 5000)
           = Some u \<and>
        scheduled u = (3602879701896397 / 36028797018963968, 1, 0) \<and>
        \<bar>u_mastery_score u - 0.1\<bar> \<le> 1 / 2 ^ 51)"
proof -
  let ?e = "ann_mastery\<lparr>m_mastery_score := 0.25\<rparr>"
  note r = scheduler_float_update_rule [OF example_item_refs(1,2), of quarter_world "''p1''" True 1000]
  note n = scheduler_float_update_rule [OF example_item_refs(3,4), of example_world "''p1''" True 5000]
  have range: "0 \<le> m_mastery_score ?e \<and> m_mastery_score ?e \<le> 1" by simp
  have a: "\<exists>u. fst (compute_mastery_update quarter_world ''p1'' (q_payload_json ann_question)
                      True 1000) = Some u \<and>
               scheduled u = spec_scheduler_step (m_mastery_score ?e)
                 (m_consecutive_correct ?e) (m_consecutive_incorrect ?e) True 1000 \<and>
               \<bar>u_mastery_score u - exact_score (m_mastery_score ?e) True 1000\<bar> \<le> 1 / 2 ^ 51"
    using r quarter_lookup range by blast
  have c: "\<exists>u. fst (compute_mastery_update example_world ''p1'' (q_payload_json colour_question)
                      True 5000) = Some u \<and>
               scheduled u = spec_scheduler_step 0 0 0 True 5000 \<and>
               \<bar>u_mastery_score u - exact_score 0 True 5000\<bar> \<le> 1 / 2 ^ 51"
    using n example_lookups(2) by blast
  have sa: "spec_scheduler_step (m_mastery_score ?e) (m_consecutive_correct ?e)
              (m_consecutive_incorrect ?e) True 1000
              = (7205759403792793 / 18014398509481984, 4, 0)"
    by code_simp
  have sc: "spec_scheduler_step 0 0 0 True 5000 = (3602879701896397 / 36028797018963968, 1, 0)"
    by code_simp
  have ea: "exact_score (m_mastery_score ?e) True 1000 = 0.4"
    by (simp add: exact_score_def)
  have ec: "exact_score 0 True 5000 = 0.1"
    by (simp add: exact_score_def)
  show ?thesis
    using a c example_item_refs unfolding sa sc ea ec by blast
qed

text \<open>
  Claim C2, as stated, calls the interval a non-increasing function of the score. The
  intervals grow with the score: score 0 gives 1 day and score 1 gives 14 days.
\<close>

theorem interval_days_not_nonincreasing:
  "(0::real) \<le> 1 \<and> \<not> interval_days 1 \<le> interval_days 0"
  unfolding interval_days_def interval_thresholds by simp

text \<open>
  Claim C2, amended. The interval for a score is 14 days from 0.8, 7 days from 0.6, 4 days
  from 0.4, 2 days from 0.2 and 1 day below, a non-decreasing step function of the score;
  the thresholds are the floats these literals denote.
  The returned record's next-due timestamp is the clock reading taken when it is computed
  plus the interval of the post-update score, and its last-seen timestamp is the clock
  reading that follows.
\<close>

theorem next_due_schedule:
  assumes "truthy (p_item_type pl)" and "truthy (p_item_id pl)"
  shows "(\<exists>u. fst (compute_mastery_update w pid pl correct rt) = Some u \<and>
              u_next_due_at u =
                clock w (ticks w) + timedelta_days (interval_days (u_mastery_score u)) \<and>
              u_last_seen_at u = clock w (ticks w + 1)) \<and>
         (round_double 0.8 \<le> s \<longrightarrow> interval_days s = 14) \<and>
         (round_double 0.6 \<le> s \<and> s < round_double 0.8 \<longrightarrow> interval_days s = 7) \<and>
         (round_double 0.4 \<le> s \<and> s < round_double 0.6 \<longrightarrow> interval_days s = 4) \<and>
         (round_double 0.2 \<le> s \<and> s < round_double 0.4 \<longrightarrow> interval_days s = 2) \<and>
         (s < round_double 0.2 \<longrightarrow> interval_days s = 1) \<and>
         (s1 \<le> s2 \<longrightarrow> interval_days s1 \<le> interval_days s2)"
proof -
  have "\<exists>u. fst (compute_mastery_update w pid pl correct rt) = Some u \<and>
              u_next_due_at u =
                clock w (ticks w) + timedelta_days (interval_days (u_mastery_score u)) \<and>
              u_last_seen_at u = clock w (ticks w + 1)"
    using assms
    by (simp add: compute_mastery_update_def utcnow_def Let_def split: prod.splits)
  moreover have "(round_double 0.8 \<le> s \<longrightarrow> interval_days s = 14) \<and>
         (round_double 0.6 \<le> s \<and> s < round_double 0.8 \<longrightarrow> interval_days s = 7) \<and>
         (round_double 0.4 \<le> s \<and> s < round_double 0.6 \<longrightarrow> interval_days s = 4) \<and>
         (round_double 0.2 \<le> s \<and> s < round_double 0.4 \<longrightarrow> interval_days s = 2) \<and>
         (s < round_double 0.2 \<longrightarrow> interval_days s = 1)"
    unfolding interval_days_def interval_thresholds by simp
  moreover have "s1 \<le> s2 \<longrightarrow> interval_days s1 \<le> interval_days s2"
    using interval_days_mono by blast
  ultimately show ?thesis by blast
qed

theorem next_due_schedule_witness:
  "truthy (p_item_type (q_payload_json colour_question)) \<and>
   truthy (p_item_id (q_payload_json colour_question)) \<and>
   (\<exists>u. fst (compute_mastery_update example_world ''p1'' (q_payload_json colour_question)
              True 1000) = Some u \<and>
        u_next_due_at u = 10 + timedelta_days (interval_days (u_mastery_score u)) \<and>
        u_last_seen_at u = 11) \<and>
   interval_days 0.85 = 14 \<and> interval_days 0.7 = 7 \<and> interval_days 0.5 = 4 \<and>
   interval_days 0.3 = 2 \<and> interval_days 0.15 = 1 \<and>
   interval_days 0.15 \<le> interval_days 0.85"
proof -
  have w: "clock example_world (ticks example_world) = 10"
          "clock example_world (ticks example_world + 1) = 11"
    by (simp_all add: example_world_def)
  note t = next_due_schedule [OF example_item_refs(3,4), of example_world "''p1''" True 1000]
  show ?thesis
    using t [of "0.85" "0.15" "0.85"] t [of "0.7" 0 0] t [of "0.5" 0 0] t [of "0.3" 0 0]
      t [of "0.15" 0 0] example_item_refs(3,4)
    unfolding w interval_thresholds by simp
qed

text \<open>
  Claim C9. Every update that returns a record resets one of the two streak counters: the
  record never has consecutive-correct and consecutive-incorrect both positive, whatever
  the stored record, the outcome and the response time.
\<close>

theorem streaks_never_both_positive:
  assumes "truthy (p_item_type pl)" and "truthy (p_item_id pl)"
  shows "\<exists>u. fst (compute_mastery_update w pid pl correct rt) = Some u \<and>
             \<not> (0 < u_consecutive_correct u \<and> 0 < u_consecutive_incorrect u) \<and>
             (if correct then u_consecutive_incorrect u = 0 else u_consecutive_correct u = 0)"
  using assms
  by (auto simp add: compute_mastery_update_def utcnow_def Let_def split: prod.splits)

theorem streaks_never_both_positive_witness:
  "truthy (p_item_type (q_payload_json ann_question)) \<and>
   truthy (p_item_id (q_payload_json ann_question)) \<and>
   (\<exists>u. fst (compute_mastery_update example_world ''p1'' (q_payload_json ann_question) False 700)
           = Some u \<and>
        \<not> (0 < u_consecutive_correct u \<and> 0 < u_consecutive_incorrect u) \<and>
        u_consecutive_correct u = 0)"
  using streaks_never_both_positive [OF example_item_refs(1,2), of example_world "''p1''" False 700]
    example_item_refs(1,2)
  by simp


section \<open>The answer evaluator\<close>

lemma evaluate_answer_other_types:
  "question_type \<noteq> ''recall'' \<Longrightarrow>
   evaluate_answer question_type correct_answer user_answer acceptable_answers =
     (lower (strip (py_str user_answer)) = lower (strip (py_str correct_answer)))"
  by (simp add: evaluate_answer_def)

lemma evaluate_answer_recall:
  "evaluate_answer ''recall'' correct_answer user_answer (Some alternates) =
     (lower (strip (py_str user_answer)) = lower (strip (py_str correct_answer)) \<or>
      lower (strip (py_str user_answer)) \<in> lower ` set alternates)"
  by (auto simp add: evaluate_answer_def Let_def)

text \<open>
  Claim C3 asks that every comparison of a recall question ignore case and surrounding
  whitespace on both sides, the alternates included. The code strips the submitted answer
  and the canonical answer but only lower-cases the alternates: with canonical answer
  \<open>azure\<close> and submitted answer \<open>blue\<close>, the alternate \<open>" Blue"\<close> is not matched, although
  \<open>"Blue"\<close> is, and although the same text \<open>" Blue"\<close> is matched as a canonical answer.
\<close>

theorem alternate_not_stripped:
  "evaluate_answer ''recall'' (PStr ''azure'') (PStr ''blue'') (Some ['' Blue'']) = False \<and>
   evaluate_answer ''recall'' (PStr ''azure'') (PStr ''blue'') (Some [''Blue'']) = True \<and>
   evaluate_answer ''recall'' (PStr '' Blue'') (PStr ''blue'') (Some []) = True \<and>
   evaluate_answer ''mcq'' (PStr '' Blue'') (PStr ''blue '') (Some []) = True"
  by code_simp


section \<open>Due-set resolution\<close>

text \<open>
  Claim C5 asks that an item whose mastery record is due strictly in the future have no
  entry in the result. \<open>due_items\<close> collects \<open>known_ids\<close> from the due mastery rows only, so
  such an item counts as never reviewed: with the clock at 10 and the family member
  \<open>f1\<close> due at 1000000, the result lists \<open>f1\<close> as a catalog entry.
\<close>

theorem future_due_item_listed:
  "get_mastery_row example_world ''p1'' ''family'' ''f1'' = Some ann_mastery \<and>
   m_next_due_at ann_mastery = Some 1000000 \<and>
   fst (utcnow example_world) = 10 \<and>
   fst (due_items example_world ''p1'') =
     [FamilyEntry ''f1'', KnowledgeEntry ''k1'' 0, KnowledgeEntry ''k2'' 3]"
  by code_simp


section \<open>Quiz assembly\<close>

text \<open>
  Claim C8 asks that a generator that fails or returns malformed structured output never
  make the assembler raise. The handler catches \<open>OpenAIError\<close> and \<open>JSONDecodeError\<close> only:
  a reply that is valid JSON but not an object raises \<open>AttributeError\<close> at \<open>data.get\<close>, a
  reply without content raises \<open>TypeError\<close> in \<open>json.loads\<close>, and an object without a
  \<open>questions\<close> key yields the empty list instead of the fallback.
\<close>

theorem malformed_reply_raises:
  "fst (generate_quiz_questions (Client ContentJsonNonObject) example_world [ann]
          [colour, diagnosis] [] 7 False) = Inl AttributeError \<and>
   fst (generate_quiz_questions (Client ContentNone) example_world [ann]
          [colour, diagnosis] [] 7 False) = Inl TypeError \<and>
   fst (generate_quiz_questions (Client (ContentJsonObject None)) example_world [ann]
          [colour, diagnosis] [] 7 False) = Inr []"
  by code_simp


section \<open>Quiz assembly: selection and fallback drafting\<close>

lemma lookup_by_mem: "lookup_by key rows i = Some r \<Longrightarrow> r \<in> set rows"
proof -
  assume "lookup_by key rows i = Some r"
  then have "(i, r) \<in> set (rev (map (\<lambda>r. (key r, r)) rows))"
    unfolding lookup_by_def by (rule map_of_SomeD)
  then show ?thesis by auto
qed

lemma upt_shift: "map f [d ..< d + Suc n] = f d # map f [Suc d ..< Suc d + n]"
  by (subst upt_conv_Cons) (simp_all del: upt_Suc)

lemma fallback_loop_questions:
  "fst (fallback_loop items qs w) =
     qs @ map2 fallback_question (map (uuids w) [drawn w ..< drawn w + length items]) items"
proof (induction items arbitrary: qs w)
  case Nil
  show ?case by simp
next
  case (Cons it items)
  let ?w1 = "w\<lparr>drawn := drawn w + 1\<rparr>"
  have step: "fallback_loop (it # items) qs w =
              fallback_loop items (qs @ [fallback_question (uuids w (drawn w)) it]) ?w1"
    by (simp add: uuid_def)
  have ih: "fst (fallback_loop items (qs @ [fallback_question (uuids w (drawn w)) it]) ?w1) =
            (qs @ [fallback_question (uuids w (drawn w)) it]) @
            map2 fallback_question (map (uuids w) [Suc (drawn w) ..< Suc (drawn w) + length items]) items"
    using Cons.IH [of "qs @ [fallback_question (uuids w (drawn w)) it]" ?w1] by simp
  have "map (uuids w) [drawn w ..< drawn w + length (it # items)] =
        uuids w (drawn w) # map (uuids w) [Suc (drawn w) ..< Suc (drawn w) + length items]"
    using upt_shift [of "uuids w" "drawn w" "length items"] by simp
  then have "qs @ map2 fallback_question (map (uuids w) [drawn w ..< drawn w + length (it # items)]) (it # items) =
        (qs @ [fallback_question (uuids w (drawn w)) it]) @
            map2 fallback_question (map (uuids w) [Suc (drawn w) ..< Suc (drawn w) + length items]) items"
    by (simp only: zip_Cons_Cons list.map append.simps append_assoc prod.case)
  then show ?case unfolding step ih by (rule sym)
qed

lemma fill_loop_keeps: "set selected \<subseteq> set (fill_loop n rest selected seen)"
proof (induction n rest selected seen rule: fill_loop.induct)
  case (1 n selected seen)
  then show ?case by simp
next
  case (2 n it rest selected seen)
  show ?case
  proof (cases "item_ident it \<in> seen")
    case True
    then show ?thesis using 2(1) by simp
  next
    case notseen: False
    show ?thesis
    proof (cases "int (length (selected @ [it])) \<ge> n")
      case True
      then show ?thesis using notseen by auto
    next
      case False
      have "set (selected @ [it]) \<subseteq> set (fill_loop n rest (selected @ [it]) (insert (item_ident it) seen))"
        using 2(2) [OF notseen False] .
      then have "set selected \<subseteq> set (fill_loop n rest (selected @ [it]) (insert (item_ident it) seen))"
        by simp
      then show ?thesis using notseen False by simp
    qed
  qed
qed

lemma fill_loop_subset:
  "set selected \<subseteq> C \<Longrightarrow> set rest \<subseteq> C \<Longrightarrow> set (fill_loop n rest selected seen) \<subseteq> C"
proof (induction n rest selected seen rule: fill_loop.induct)
  case (1 n selected seen)
  then show ?case by simp
next
  case (2 n it rest selected seen)
  have itC: "it \<in> C" and restC: "set rest \<subseteq> C" using 2(4) by simp_all
  show ?case
  proof (cases "item_ident it \<in> seen")
    case True
    then show ?thesis using 2(1) [OF True 2(3) restC] by simp
  next
    case notseen: False
    have selC: "set (selected @ [it]) \<subseteq> C" using 2(3) itC by simp
    show ?thesis
    proof (cases "int (length (selected @ [it])) \<ge> n")
      case True
      then show ?thesis using notseen selC by simp
    next
      case False
      then show ?thesis using 2(2) [OF notseen False selC restC] notseen by simp
    qed
  qed
qed

lemma fill_loop_distinct:
  "seen = item_ident ` set selected \<Longrightarrow> distinct (map item_ident selected) \<Longrightarrow>
   distinct (map item_ident (fill_loop n rest selected seen))"
proof (induction n rest selected seen rule: fill_loop.induct)
  case (1 n selected seen)
  then show ?case by simp
next
  case (2 n it rest selected seen)
  show ?case
  proof (cases "item_ident it \<in> seen")
    case True
    then show ?thesis using 2(1) [OF True 2(3) 2(4)] by simp
  next
    case notseen: False
    have d: "distinct (map item_ident (selected @ [it]))"
      using 2(3) 2(4) notseen by simp
    have s: "insert (item_ident it) seen = item_ident ` set (selected @ [it])"
      using 2(3) by simp
    show ?thesis
    proof (cases "int (length (selected @ [it])) \<ge> n")
      case True
      then show ?thesis using notseen d by simp
    next
      case False
      then show ?thesis using 2(2) [OF notseen False s d] notseen by simp
    qed
  qed
qed

lemma fill_loop_cover:
  "seen = item_ident ` set selected \<Longrightarrow>
   n \<le> int (length (fill_loop n rest selected seen)) \<or>
   item_ident ` set rest \<subseteq> item_ident ` set (fill_loop n rest selected seen)"
proof (induction n rest selected seen rule: fill_loop.induct)
  case (1 n selected seen)
  then show ?case by simp
next
  case (2 n it rest selected seen)
  show ?case
  proof (cases "item_ident it \<in> seen")
    case True
    have e: "fill_loop n (it # rest) selected seen = fill_loop n rest selected seen"
      using True by simp
    have "item_ident it \<in> item_ident ` set selected" using True 2(3) by simp
    then have here: "item_ident it \<in> item_ident ` set (fill_loop n rest selected seen)"
      using fill_loop_keeps [of selected n rest seen] by blast
    from 2(1) [OF True 2(3)] show ?thesis
    proof
      assume "n \<le> int (length (fill_loop n rest selected seen))"
      then show ?thesis unfolding e by simp
    next
      assume "item_ident ` set rest \<subseteq> item_ident ` set (fill_loop n rest selected seen)"
      then have "item_ident ` set (it # rest) \<subseteq> item_ident ` set (fill_loop n rest selected seen)"
        using here by simp
      then show ?thesis unfolding e by blast
    qed
  next
    case notseen: False
    have s: "insert (item_ident it) seen = item_ident ` set (selected @ [it])"
      using 2(3) by simp
    show ?thesis
    proof (cases "int (length (selected @ [it])) \<ge> n")
      case True
      then have e: "fill_loop n (it # rest) selected seen = selected @ [it]"
        using notseen by simp
      show ?thesis unfolding e using True by blast
    next
      case False
      let ?r = "fill_loop n rest (selected @ [it]) (insert (item_ident it) seen)"
      have e: "fill_loop n (it # rest) selected seen = ?r"
        using notseen False by simp
      have "it \<in> set (selected @ [it])" by simp
      then have "it \<in> set ?r"
        using fill_loop_keeps [of "selected @ [it]" n rest "insert (item_ident it) seen"] by blast
      then have here: "item_ident it \<in> item_ident ` set ?r" by blast
      from 2(2) [OF notseen False s] show ?thesis
      proof
        assume "n \<le> int (length ?r)"
        then show ?thesis unfolding e by blast
      next
        assume "item_ident ` set rest \<subseteq> item_ident ` set ?r"
        then have "item_ident ` set (it # rest) \<subseteq> item_ident ` set ?r"
          using here by simp
        then show ?thesis unfolding e by blast
      qed
    qed
  qed
qed

lemma due_loop_inv:
  assumes k: "\<And>i it. knowledge_lookup i = Some it \<Longrightarrow> it \<in> C"
      and f: "\<And>i it. family_lookup i = Some it \<Longrightarrow> it \<in> C"
  shows "seen = item_ident ` set selected \<Longrightarrow> distinct (map item_ident selected) \<Longrightarrow>
         set selected \<subseteq> C \<Longrightarrow>
         due_loop knowledge_lookup family_lookup dues selected seen = (selected', seen') \<Longrightarrow>
         seen' = item_ident ` set selected' \<and> distinct (map item_ident selected') \<and>
         set selected' \<subseteq> C"
proof (induction dues arbitrary: selected seen)
  case Nil
  from Nil(4) have "selected' = selected" and "seen' = seen" by simp_all
  then show ?case using Nil(1,2,3) by simp
next
  case (Cons due rest)
  define look where "look =
    (if due_item_type due = ''knowledge'' then knowledge_lookup (due_item_id due)
     else if due_item_type due = ''family'' then family_lookup (due_item_id due)
     else None)"
  have step: "due_loop knowledge_lookup family_lookup (due # rest) selected seen =
     (case look of
        Some i \<Rightarrow>
          if item_ident i \<notin> seen
          then due_loop knowledge_lookup family_lookup rest (selected @ [i])
                 (insert (item_ident i) seen)
          else due_loop knowledge_lookup family_lookup rest selected seen
      | None \<Rightarrow> due_loop knowledge_lookup family_lookup rest selected seen)"
    unfolding look_def by (simp only: due_loop.simps Let_def)
  show ?case
  proof (cases look)
    case None
    then have "due_loop knowledge_lookup family_lookup rest selected seen = (selected', seen')"
      using Cons.prems(4) unfolding step by simp
    then show ?thesis by (rule Cons.IH [OF Cons.prems(1,2,3)])
  next
    case (Some i)
    have iC: "i \<in> C"
    proof (cases "due_item_type due = ''knowledge''")
      case True
      then have "knowledge_lookup (due_item_id due) = Some i" using Some unfolding look_def by simp
      then show ?thesis by (rule k)
    next
      case False
      then have "family_lookup (due_item_id due) = Some i"
        using Some unfolding look_def by (simp split: if_splits)
      then show ?thesis by (rule f)
    qed
    show ?thesis
    proof (cases "item_ident i \<in> seen")
      case True
      then have "due_loop knowledge_lookup family_lookup rest selected seen = (selected', seen')"
        using Cons.prems(4) Some unfolding step by simp
      then show ?thesis by (rule Cons.IH [OF Cons.prems(1,2,3)])
    next
      case False
      have r: "due_loop knowledge_lookup family_lookup rest (selected @ [i])
              (insert (item_ident i) seen) = (selected', seen')"
        using Cons.prems(4) Some False unfolding step by simp
      have s: "insert (item_ident i) seen = item_ident ` set (selected @ [i])"
        using Cons.prems(1) by simp
      have d: "distinct (map item_ident (selected @ [i]))"
        using Cons.prems(1,2) False by simp
      have c: "set (selected @ [i]) \<subseteq> C" using Cons.prems(3) iC by simp
      show ?thesis by (rule Cons.IH [OF s d c r])
    qed
  qed
qed

lemma knowledge_lookup_catalog:
  assumes "(map_option KnowledgeItem \<circ> lookup_by k_id (sensitive_filtered inc kis)) i = Some it"
  shows "it \<in> set (catalog inc kis fms)"
proof -
  from assms obtain r where "lookup_by k_id (sensitive_filtered inc kis) i = Some r"
    and "it = KnowledgeItem r"
    by (cases "lookup_by k_id (sensitive_filtered inc kis) i") simp_all
  then show ?thesis using lookup_by_mem [of k_id "sensitive_filtered inc kis" i r]
    by (simp add: catalog_def)
qed

lemma family_lookup_catalog:
  assumes "(map_option FamilyItem \<circ> lookup_by f_id fms) i = Some it"
  shows "it \<in> set (catalog inc kis fms)"
proof -
  from assms obtain r where "lookup_by f_id fms i = Some r" and "it = FamilyItem r"
    by (cases "lookup_by f_id fms i") simp_all
  then show ?thesis using lookup_by_mem [of f_id fms i r]
    by (simp add: catalog_def)
qed

lemma selection_props:
  fixes n :: int
  assumes "due_loop (map_option KnowledgeItem \<circ> lookup_by k_id (sensitive_filtered inc kis))
             (map_option FamilyItem \<circ> lookup_by f_id fms) dues [] {} = (sel, seen)"
  defines "r \<equiv> fill_loop n (catalog inc kis fms) sel seen"
  shows "distinct (map item_ident r)" and "set r \<subseteq> set (catalog inc kis fms)"
    and "n \<le> int (length r) \<or> item_ident ` set (catalog inc kis fms) \<subseteq> item_ident ` set r"
proof -
  let ?C = "set (catalog inc kis fms)"
  have e: "{} = item_ident ` set []" by simp
  have d: "distinct (map item_ident [])" by simp
  have c: "set [] \<subseteq> ?C" by simp
  have inv: "seen = item_ident ` set sel \<and> distinct (map item_ident sel) \<and> set sel \<subseteq> ?C"
    by (rule due_loop_inv [OF knowledge_lookup_catalog family_lookup_catalog e d c assms(1)])
  show "distinct (map item_ident r)"
    unfolding r_def using inv by (intro fill_loop_distinct) simp_all
  show "set r \<subseteq> ?C"
    unfolding r_def using inv by (intro fill_loop_subset) simp_all
  show "n \<le> int (length r) \<or> item_ident ` ?C \<subseteq> item_ident ` set r"
    unfolding r_def using inv by (intro fill_loop_cover) simp
qed

lemma items_pool_eq:
  "\<exists>sel seen. due_loop (map_option KnowledgeItem \<circ> lookup_by k_id (sensitive_filtered inc kis))
             (map_option FamilyItem \<circ> lookup_by f_id fms) dues [] {} = (sel, seen) \<and>
     items_pool fms kis dues n inc = slice_to n (fill_loop n (catalog inc kis fms) sel seen)"
  by (cases "due_loop (map_option KnowledgeItem \<circ> lookup_by k_id (sensitive_filtered inc kis))
             (map_option FamilyItem \<circ> lookup_by f_id fms) dues [] {}")
     (simp add: items_pool_def catalog_def Let_def)

lemma length_le_catalog:
  assumes "distinct (map item_ident r)" and "set r \<subseteq> set c"
  shows "length r \<le> length c"
proof -
  have "length r = card (item_ident ` set r)"
    using assms(1) distinct_card [of "map item_ident r"] by simp
  also have "\<dots> \<le> card (item_ident ` set c)"
    using assms(2) by (intro card_mono) auto
  also have "\<dots> \<le> length c"
    using card_length [of "map item_ident c"] by simp
  finally show ?thesis .
qed

lemma covering_selection:
  assumes "distinct (map item_ident r)" and "set r \<subseteq> set c"
      and "distinct (map item_ident c)"
      and "item_ident ` set c \<subseteq> item_ident ` set r"
  shows "length r = length c" and "set r = set c"
proof -
  have "length c = card (item_ident ` set c)"
    using assms(3) distinct_card [of "map item_ident c"] by simp
  also have "\<dots> \<le> card (item_ident ` set r)"
    using assms(4) by (intro card_mono) auto
  also have "\<dots> = length r"
    using assms(1) distinct_card [of "map item_ident r"] by simp
  finally show len: "length r = length c"
    using length_le_catalog [OF assms(1,2)] by simp
  have "distinct r" "distinct c" using assms(1,3) by (simp_all add: distinct_map)
  then have "card (set r) = card (set c)" using len by (simp add: distinct_card)
  then show "set r = set c"
    using assms(2) by (intro card_subset_eq) simp_all
qed

lemma items_pool_props:
  assumes "0 \<le> n"
  shows "set (items_pool fms kis dues n inc) \<subseteq> set (catalog inc kis fms)"
    and "int (length (items_pool fms kis dues n inc)) \<le> n"
    and "distinct (map item_ident (catalog inc kis fms)) \<Longrightarrow>
         length (items_pool fms kis dues n inc) = min (nat n) (length (catalog inc kis fms))"
    and "distinct (map item_ident (catalog inc kis fms)) \<Longrightarrow>
         int (length (catalog inc kis fms)) \<le> n \<Longrightarrow>
         set (items_pool fms kis dues n inc) = set (catalog inc kis fms)"
proof -
  obtain sel seen where
    d: "due_loop (map_option KnowledgeItem \<circ> lookup_by k_id (sensitive_filtered inc kis))
             (map_option FamilyItem \<circ> lookup_by f_id fms) dues [] {} = (sel, seen)"
    and p: "items_pool fms kis dues n inc = slice_to n (fill_loop n (catalog inc kis fms) sel seen)"
    using items_pool_eq by blast
  let ?r = "fill_loop n (catalog inc kis fms) sel seen"
  let ?c = "catalog inc kis fms"
  note s = selection_props [OF d, of n]
  have t: "items_pool fms kis dues n inc = take (nat n) ?r"
    using p assms by (simp add: slice_to_def)
  show "set (items_pool fms kis dues n inc) \<subseteq> set ?c"
    unfolding t using s(2) set_take_subset [of "nat n" ?r] by blast
  show "int (length (items_pool fms kis dues n inc)) \<le> n"
    unfolding t using assms by simp
  have le: "length ?r \<le> length ?c" using length_le_catalog [OF s(1,2)] .
  {
    assume dc: "distinct (map item_ident ?c)"
    show "length (items_pool fms kis dues n inc) = min (nat n) (length ?c)"
    proof (cases "n \<le> int (length ?r)")
      case True
      then show ?thesis unfolding t using le by simp
    next
      case False
      then have "item_ident ` set ?c \<subseteq> item_ident ` set ?r" using s(3) by blast
      then have "length ?r = length ?c" using covering_selection(1) [OF s(1,2) dc] by blast
      then show ?thesis unfolding t by simp
    qed
  }
  {
    assume dc: "distinct (map item_ident ?c)" and big: "int (length ?c) \<le> n"
    have cov: "item_ident ` set ?c \<subseteq> item_ident ` set ?r"
    proof (cases "n \<le> int (length ?r)")
      case True
      then have "length ?r = length ?c" using le big by simp
      moreover have "distinct ?r" using s(1) by (simp add: distinct_map)
      moreover have "distinct ?c" using dc by (simp add: distinct_map)
      ultimately have "card (set ?r) = card (set ?c)" by (simp add: distinct_card)
      then have "set ?r = set ?c" using s(2) by (intro card_subset_eq) simp_all
      then show ?thesis by simp
    next
      case False
      then show ?thesis using s(3) by blast
    qed
    have "set ?r = set ?c" using covering_selection(2) [OF s(1,2) dc cov] .
    moreover have "take (nat n) ?r = ?r" using le big by simp
    ultimately show "set (items_pool fms kis dues n inc) = set ?c" unfolding t by simp
  }
qed

lemma fallback_result:
  assumes "uses_fallback gen"
      and "gen = NoClient \<or> json_dumps_ok fms (sensitive_filtered inc kis) dues"
  shows "fst (generate_quiz_questions gen w fms kis dues n inc) =
           Inr (fst (fallback_questions (items_pool fms kis dues n inc) [] n w))"
  using assms
  by (cases gen rule: uses_fallback.cases)
     (simp_all add: generate_quiz_questions_def Let_def split: prod.splits)

lemma fallback_questions_pool:
  assumes "0 \<le> n"
  shows "fst (fallback_questions (items_pool fms kis dues n inc) [] n w) =
           map2 fallback_question
             (map (uuids w) [drawn w ..< drawn w + length (items_pool fms kis dues n inc)])
             (items_pool fms kis dues n inc)"
proof -
  have "slice_to n (items_pool fms kis dues n inc) = items_pool fms kis dues n inc"
    using items_pool_props(2) [OF assms, of fms kis dues inc] assms by (simp add: slice_to_def)
  then show ?thesis
    by (simp add: fallback_questions_def fallback_loop_questions)
qed

lemma fallback_quiz_shape:
  assumes "0 \<le> n" and "uses_fallback gen"
      and "gen = NoClient \<or> json_dumps_ok fms (sensitive_filtered inc kis) dues"
  shows "fst (generate_quiz_questions gen w fms kis dues n inc) =
           Inr (map2 fallback_question
                  (map (uuids w) [drawn w ..< drawn w + length (items_pool fms kis dues n inc)])
                  (items_pool fms kis dues n inc))"
  using fallback_result [OF assms(2,3)] fallback_questions_pool [OF assms(1)] by simp

lemma drafted_from_pool:
  assumes "q \<in> set (map2 fallback_question ids pool)"
  shows "\<exists>qid it. it \<in> set pool \<and> q = fallback_question qid it"
proof -
  from assms obtain p where "p \<in> set (zip ids pool)" and "q = fallback_question (fst p) (snd p)"
    by (auto simp add: case_prod_beta)
  moreover from this have "snd p \<in> set pool"
    by (metis in_set_zipE prod.collapse)
  ultimately show ?thesis by blast
qed

lemma pool_item_drafted:
  assumes "length ids = length pool" and "it \<in> set pool"
  shows "\<exists>qid. fallback_question qid it \<in> set (map2 fallback_question ids pool)"
proof -
  from assms(2) obtain j where j: "j < length pool" "pool ! j = it"
    by (auto simp add: in_set_conv_nth)
  then have "(ids ! j, it) \<in> set (zip ids pool)"
    using assms(1) by (auto simp add: set_zip)
  then have "fallback_question (ids ! j) it \<in> set (map2 fallback_question ids pool)"
    by force
  then show ?thesis by blast
qed

text \<open>
  The fallback path and the cap. For a requested count \<open>n \<ge> 0\<close>, the selection of due
  items first and catalog fill after is cut to at most \<open>n\<close> items, and to exactly the
  smaller of \<open>n\<close> and the size of the filtered catalog when the catalog's item ids are
  distinct. Whenever the fallback drafts the questions (no generator, \<open>OpenAIError\<close>, or
  content that is not JSON) there is one question per selected item, so the list never
  exceeds \<open>n\<close>.
\<close>

lemma fallback_quiz_bounded:
  assumes "0 \<le> n" and "uses_fallback gen"
      and "gen = NoClient \<or> json_dumps_ok fms (sensitive_filtered inc kis) dues"
  shows "(\<exists>qs. fst (generate_quiz_questions gen w fms kis dues n inc) = Inr qs \<and>
              length qs = length (items_pool fms kis dues n inc) \<and>
              int (length qs) \<le> n \<and>
              (distinct (map item_ident (catalog inc kis fms)) \<longrightarrow>
                 length qs = min (nat n) (length (catalog inc kis fms))))"
proof -
  let ?pool = "items_pool fms kis dues n inc"
  let ?qs = "map2 fallback_question (map (uuids w) [drawn w ..< drawn w + length ?pool]) ?pool"
  have r: "fst (generate_quiz_questions gen w fms kis dues n inc) = Inr ?qs"
    by (rule fallback_quiz_shape [OF assms])
  have l: "length ?qs = length ?pool" by simp
  have b: "int (length ?qs) \<le> n"
    unfolding l by (rule items_pool_props(2) [OF assms(1)])
  have m: "distinct (map item_ident (catalog inc kis fms)) \<longrightarrow>
           length ?qs = min (nat n) (length (catalog inc kis fms))"
    unfolding l using items_pool_props(3) [OF assms(1)] by blast
  show ?thesis using r l b m by blast
qed

text \<open>
  The fallback path and the sensitivity filter. With \<open>include_sensitive = False\<close> and a
  requested count \<open>n \<ge> 0\<close>, every question drafted by the fallback comes from a knowledge
  item of sensitivity level below 2 or from a family member; with distinct knowledge ids
  no such question carries the id of a knowledge item of level 2 or more. Family members
  are not filtered: when \<open>n\<close> covers the filtered catalog (ids distinct), every family
  member gets a question.
\<close>

lemma fallback_quiz_not_sensitive:
  assumes "0 \<le> n" and "uses_fallback gen"
      and "gen = NoClient \<or> json_dumps_ok fms (sensitive_filtered False kis) dues"
  shows "\<exists>qs. fst (generate_quiz_questions gen w fms kis dues n False) = Inr qs \<and>
           (\<forall>q\<in>set qs.
              (qn_item_type q = ''knowledge'' \<and>
               (\<exists>k\<in>set kis. k_sensitivity_level k < 2 \<and> qn_item_id q = k_id k)) \<or>
              (qn_item_type q = ''family'' \<and> (\<exists>f\<in>set fms. qn_item_id q = f_id f))) \<and>
           (distinct (map k_id kis) \<longrightarrow>
              (\<forall>q\<in>set qs. \<forall>k\<in>set kis.
                 qn_item_type q = ''knowledge'' \<and> qn_item_id q = k_id k \<longrightarrow>
                 k_sensitivity_level k < 2)) \<and>
           (distinct (map item_ident (catalog False kis fms)) \<and>
            int (length (catalog False kis fms)) \<le> n \<longrightarrow>
              (\<forall>f\<in>set fms. \<exists>q\<in>set qs. qn_item_type q = ''family'' \<and> qn_item_id q = f_id f))"
proof -
  let ?pool = "items_pool fms kis dues n False"
  let ?ids = "map (uuids w) [drawn w ..< drawn w + length ?pool]"
  let ?qs = "map2 fallback_question ?ids ?pool"
  have r: "fst (generate_quiz_questions gen w fms kis dues n False) = Inr ?qs"
    by (rule fallback_quiz_shape [OF assms])
  have src: "(qn_item_type q = ''knowledge'' \<and>
               (\<exists>k\<in>set kis. k_sensitivity_level k < 2 \<and> qn_item_id q = k_id k)) \<or>
              (qn_item_type q = ''family'' \<and> (\<exists>f\<in>set fms. qn_item_id q = f_id f))"
    if "q \<in> set ?qs" for q
  proof -
    from drafted_from_pool [OF that] obtain qid it
      where it: "it \<in> set ?pool" and q: "q = fallback_question qid it" by blast
    have m: "it \<in> set (catalog False kis fms)"
      using it items_pool_props(1) [OF assms(1), of fms kis dues False] by blast
    show ?thesis
    proof (cases it)
      case (KnowledgeItem k)
      then have "k \<in> set kis" and "k_sensitivity_level k < 2"
        using m by (auto simp add: catalog_def sensitive_filtered_def)
      then show ?thesis
        unfolding q KnowledgeItem by (auto simp add: fallback_question_def)
    next
      case (FamilyItem f)
      then have "f \<in> set fms"
        using m by (auto simp add: catalog_def)
      then show ?thesis
        unfolding q FamilyItem by (auto simp add: fallback_question_def)
    qed
  qed
  have ns: "k_sensitivity_level k < 2"
    if "distinct (map k_id kis)" "q \<in> set ?qs" "k \<in> set kis"
       "qn_item_type q = ''knowledge''" "qn_item_id q = k_id k" for q k
  proof -
    from src [OF that(2)] that(4) obtain k' where
      k': "k' \<in> set kis" "k_sensitivity_level k' < 2" "qn_item_id q = k_id k'" by auto
    have "inj_on k_id (set kis)" using that(1) by (simp add: distinct_map)
    then have "k = k'" using k'(1,3) that(3,5) by (auto dest: inj_onD)
    then show ?thesis using k'(2) by simp
  qed
  have fam: "\<exists>q\<in>set ?qs. qn_item_type q = ''family'' \<and> qn_item_id q = f_id f"
    if "distinct (map item_ident (catalog False kis fms))"
       "int (length (catalog False kis fms)) \<le> n" "f \<in> set fms" for f
  proof -
    have "set ?pool = set (catalog False kis fms)"
      by (rule items_pool_props(4) [OF assms(1) that(1,2)])
    then have "FamilyItem f \<in> set ?pool" using that(3) by (simp add: catalog_def)
    moreover have "length ?ids = length ?pool" by simp
    ultimately obtain qid where "fallback_question qid (FamilyItem f) \<in> set ?qs"
      using pool_item_drafted by blast
    moreover have "qn_item_type (fallback_question qid (FamilyItem f)) = ''family''"
      and "qn_item_id (fallback_question qid (FamilyItem f)) = f_id f"
      by (simp_all add: fallback_question_def)
    ultimately show ?thesis by blast
  qed
  have c1: "\<forall>q\<in>set ?qs.
              (qn_item_type q = ''knowledge'' \<and>
               (\<exists>k\<in>set kis. k_sensitivity_level k < 2 \<and> qn_item_id q = k_id k)) \<or>
              (qn_item_type q = ''family'' \<and> (\<exists>f\<in>set fms. qn_item_id q = f_id f))"
    using src by blast
  have c2: "distinct (map k_id kis) \<longrightarrow>
              (\<forall>q\<in>set ?qs. \<forall>k\<in>set kis.
                 qn_item_type q = ''knowledge'' \<and> qn_item_id q = k_id k \<longrightarrow>
                 k_sensitivity_level k < 2)"
    using ns by blast
  have c3: "distinct (map item_ident (catalog False kis fms)) \<and>
            int (length (catalog False kis fms)) \<le> n \<longrightarrow>
              (\<forall>f\<in>set fms. \<exists>q\<in>set ?qs. qn_item_type q = ''family'' \<and> qn_item_id q = f_id f)"
    using fam by blast
  from r c1 c2 c3 show ?thesis
    by - (rule exI [of _ ?qs], intro conjI, assumption+)
qed

lemma sensitive_world_due:
  "fst (due_items sensitive_world ''p1'') = [KnowledgeEntry ''k2'' 3]"
  by code_simp

text \<open>
  Claim C6 bounds the returned list by \<open>n\<close> on both paths. The fallback path slices its
  pool with \<open>[:n]\<close>; the generator path returns \<open>data.get("questions", [])\<close> as it is. For
  the patient whose only fact is \<open>k2\<close>, never reviewed, the request body serialises (no
  row with a timestamp is part of it), and a reply with two questions to a request for
  one is returned whole, where the fallback returns none.
\<close>

theorem generator_reply_exceeds_n:
  "fst (due_items sensitive_world ''p1'') = [KnowledgeEntry ''k2'' 3] \<and>
   json_dumps_ok (family_members sensitive_world)
     (sensitive_filtered False (knowledge_items sensitive_world))
     (fst (due_items sensitive_world ''p1'')) \<and>
   fst (generate_quiz_questions
          (Client (ContentJsonObject (Some [diagnosis_question, diagnosis_question])))
          (snd (due_items sensitive_world ''p1'')) (family_members sensitive_world)
          (knowledge_items sensitive_world) (fst (due_items sensitive_world ''p1'')) 1 False)
     = Inr [diagnosis_question, diagnosis_question] \<and>
   \<not> int (length [diagnosis_question, diagnosis_question]) \<le> 1 \<and>
   fst (generate_quiz_questions NoClient
          (snd (due_items sensitive_world ''p1'')) (family_members sensitive_world)
          (knowledge_items sensitive_world) (fst (due_items sensitive_world ''p1'')) 1 False)
     = Inr []"
  by code_simp

text \<open>
  Claim C7 keeps sensitive facts out of every returned question when \<open>include_sensitive\<close>
  is false. The code filters the knowledge items it sends to the generator and the pool the
  fallback drafts from, but sends the due entries unfiltered and returns the generator's
  questions unchecked. For the patient whose only fact is \<open>k2\<close> (level 3), never reviewed,
  the due entry for \<open>k2\<close> is part of the request, and a reply with a question on \<open>k2\<close> is
  returned, where the fallback returns none.
\<close>

theorem generator_reply_sensitive:
  "knowledge_items sensitive_world = [diagnosis_stored] \<and>
   k_sensitivity_level diagnosis_stored \<ge> 2 \<and>
   sensitive_filtered False (knowledge_items sensitive_world) = [] \<and>
   fst (due_items sensitive_world ''p1'') = [KnowledgeEntry ''k2'' 3] \<and>
   fst (generate_quiz_questions (Client (ContentJsonObject (Some [diagnosis_question])))
          (snd (due_items sensitive_world ''p1'')) (family_members sensitive_world)
          (knowledge_items sensitive_world) (fst (due_items sensitive_world ''p1'')) 7 False)
     = Inr [diagnosis_question] \<and>
   qn_item_type diagnosis_question = ''knowledge'' \<and>
   qn_item_id diagnosis_question = k_id diagnosis_stored \<and>
   fst (generate_quiz_questions NoClient
          (snd (due_items sensitive_world ''p1'')) (family_members sensitive_world)
          (knowledge_items sensitive_world) (fst (due_items sensitive_world ''p1'')) 7 False)
     = Inr []"
  by code_simp


section \<open>Submission\<close>




text \<open>One pass of the loop body for a submission whose question id resolves and whose
  rows the database accepts.\<close>

lemma submit_loop_Cons:
  assumes "qmap (i_question_id submission) = Some question"
      and "fst (add_response w (s_id session) (i_question_id submission)
                 (i_user_answer submission) (verdict qmap submission)
                 (i_response_time_ms submission)) = Inr ()"
      and "fst (case fst (compute_mastery_update
                   (snd (add_response w (s_id session) (i_question_id submission)
                          (i_user_answer submission) (verdict qmap submission)
                          (i_response_time_ms submission)))
                   (s_patient_id session) (q_payload_json question) (verdict qmap submission)
                   (i_response_time_ms submission)) of
                 Some u \<Rightarrow> update_mastery (snd (compute_mastery_update
                   (snd (add_response w (s_id session) (i_question_id submission)
                          (i_user_answer submission) (verdict qmap submission)
                          (i_response_time_ms submission)))
                   (s_patient_id session) (q_payload_json question) (verdict qmap submission)
                   (i_response_time_ms submission))) u
               | None \<Rightarrow> (Inr (), snd (compute_mastery_update
                   (snd (add_response w (s_id session) (i_question_id submission)
                          (i_user_answer submission) (verdict qmap submission)
                          (i_response_time_ms submission)))
                   (s_patient_id session) (q_payload_json question) (verdict qmap submission)
                   (i_response_time_ms submission)))) = Inr ()"
  shows "submit_loop qmap session (submission # rest) results correct_count total_time w =
           submit_loop qmap session rest
             (results @ [(i_question_id submission, verdict qmap submission)])
             (correct_count + (if verdict qmap submission then 1 else 0))
             (total_time + i_response_time_ms submission)
             (snd (case fst (compute_mastery_update
                   (snd (add_response w (s_id session) (i_question_id submission)
                          (i_user_answer submission) (verdict qmap submission)
                          (i_response_time_ms submission)))
                   (s_patient_id session) (q_payload_json question) (verdict qmap submission)
                   (i_response_time_ms submission)) of
                 Some u \<Rightarrow> update_mastery (snd (compute_mastery_update
                   (snd (add_response w (s_id session) (i_question_id submission)
                          (i_user_answer submission) (verdict qmap submission)
                          (i_response_time_ms submission)))
                   (s_patient_id session) (q_payload_json question) (verdict qmap submission)
                   (i_response_time_ms submission))) u
               | None \<Rightarrow> (Inr (), snd (compute_mastery_update
                   (snd (add_response w (s_id session) (i_question_id submission)
                          (i_user_answer submission) (verdict qmap submission)
                          (i_response_time_ms submission)))
                   (s_patient_id session) (q_payload_json question) (verdict qmap submission)
                   (i_response_time_ms submission)))))"
proof -
  let ?pl = "q_payload_json question"
  let ?v = "evaluate_answer (p_question_type ?pl) (p_correct_answer ?pl)
              (i_user_answer submission) (p_acceptable_answers ?pl)"
  let ?a = "add_response w (s_id session) (i_question_id submission)
               (i_user_answer submission) ?v (i_response_time_ms submission)"
  let ?r = "compute_mastery_update (snd ?a) (s_patient_id session) ?pl ?v
              (i_response_time_ms submission)"
  let ?u = "case fst ?r of Some u \<Rightarrow> update_mastery (snd ?r) u | None \<Rightarrow> (Inr (), snd ?r)"
  have v: "verdict qmap submission = ?v"
    using assms(1) by (simp add: verdict_def)
  have a: "?a = (Inr (), snd ?a)"
    using assms(2) unfolding v by (simp add: prod_eq_iff)
  have r: "?r = (fst ?r, snd ?r)" by simp
  have u: "?u = (Inr (), snd ?u)"
    using assms(3) unfolding v by (simp add: prod_eq_iff)
  have "submit_loop qmap session (submission # rest) results correct_count total_time w =
          (case ?a of
             (Inl e, w1) \<Rightarrow> (Inl e, w1)
           | (Inr _, w1) \<Rightarrow>
               (let (mastery_upd, w2) =
                      compute_mastery_update w1 (s_patient_id session) ?pl ?v
                        (i_response_time_ms submission)
                in case (case mastery_upd of Some u \<Rightarrow> update_mastery w2 u
                                           | None \<Rightarrow> (Inr (), w2)) of
                     (Inl e, w3) \<Rightarrow> (Inl e, w3)
                   | (Inr _, w3) \<Rightarrow>
                       submit_loop qmap session rest
                         (results @ [(i_question_id submission, ?v)])
                         (if ?v then correct_count + 1 else correct_count)
                         (total_time + i_response_time_ms submission) w3))"
    using assms(1) by (simp add: Let_def)
  also have "\<dots> = (let (mastery_upd, w2) = ?r
                in case (case mastery_upd of Some u \<Rightarrow> update_mastery w2 u
                                           | None \<Rightarrow> (Inr (), w2)) of
                     (Inl e, w3) \<Rightarrow> (Inl e, w3)
                   | (Inr _, w3) \<Rightarrow>
                       submit_loop qmap session rest
                         (results @ [(i_question_id submission, ?v)])
                         (if ?v then correct_count + 1 else correct_count)
                         (total_time + i_response_time_ms submission) w3)"
    by (subst a) simp
  also have "\<dots> = (case ?u of
                     (Inl e, w3) \<Rightarrow> (Inl e, w3)
                   | (Inr _, w3) \<Rightarrow>
                       submit_loop qmap session rest
                         (results @ [(i_question_id submission, ?v)])
                         (if ?v then correct_count + 1 else correct_count)
                         (total_time + i_response_time_ms submission) w3)"
    by (subst r) (simp only: Let_def prod.case)
  also have "\<dots> = submit_loop qmap session rest
                         (results @ [(i_question_id submission, ?v)])
                         (if ?v then correct_count + 1 else correct_count)
                         (total_time + i_response_time_ms submission) (snd ?u)"
    by (subst u) simp
  finally show ?thesis unfolding v by (simp cong: if_cong)
qed

lemma example_session_lookup: "get_session example_world ''s1'' = Some example_session"
  by (simp add: get_session_def example_world_def example_session_def)

lemma example_questions: "list_questions example_world ''s1'' = [colour_question, ann_question]"
  by (simp add: list_questions_def example_world_def colour_question_def ann_question_def)


text \<open>
  Claim C4 asks that a batch with an unresolvable question id leave no response row and no
  mastery update behind. \<open>submit_quiz\<close> checks each id inside the loop, after the items
  before it have been written: the batch of a valid answer to \<open>q1\<close> followed by the unknown
  id \<open>zz\<close> is answered with status 400, and the world it leaves holds the response row for
  \<open>q1\<close> and a new mastery row for its item \<open>k1\<close>, while the session stays active.
\<close>

theorem rejected_batch_keeps_prefix:
  "fst (submit_quiz example_world ''s1'' [blue_fast, unknown_question]) =
     Inl (HTTPException 400 ''Invalid question id'') \<and>
   quiz_responses example_world = [] \<and>
   map r_question_id (quiz_responses (snd (submit_quiz example_world ''s1''
      [blue_fast, unknown_question]))) = [''q1''] \<and>
   map m_item_id (mastery example_world) = [''f1''] \<and>
   map m_item_id (mastery (snd (submit_quiz example_world ''s1''
      [blue_fast, unknown_question]))) = [''f1'', ''k1''] \<and>
   map s_status (quiz_sessions (snd (submit_quiz example_world ''s1''
      [blue_fast, unknown_question]))) = [Some ''active'']"
proof -
  let ?qmap = "lookup_by q_id [colour_question, ann_question]"
  let ?a = "add_response example_world (s_id example_session) (i_question_id blue_fast)
              (i_user_answer blue_fast) (verdict ?qmap blue_fast) (i_response_time_ms blue_fast)"
  let ?r = "compute_mastery_update (snd ?a) (s_patient_id example_session)
              (q_payload_json colour_question) (verdict ?qmap blue_fast)
              (i_response_time_ms blue_fast)"
  let ?u = "case fst ?r of Some u \<Rightarrow> update_mastery (snd ?r) u | None \<Rightarrow> (Inr (), snd ?r)"
  have q1: "?qmap (i_question_id blue_fast) = Some colour_question" by code_simp
  have q2: "?qmap (i_question_id unknown_question) = None" by code_simp
  have a: "fst ?a = Inr ()" by code_simp
  have u: "fst ?u = Inr ()" by code_simp
  have "submit_loop ?qmap example_session [blue_fast, unknown_question] [] 0 0 example_world =
          submit_loop ?qmap example_session [unknown_question]
            ([] @ [(i_question_id blue_fast, verdict ?qmap blue_fast)])
            (0 + (if verdict ?qmap blue_fast then 1 else 0))
            (0 + i_response_time_ms blue_fast) (snd ?u)"
    using q1 a u by (rule submit_loop_Cons)
  also have "\<dots> = (Inl (HTTPException 400 ''Invalid question id''), snd ?u)"
    using q2 by simp
  finally have l: "submit_loop ?qmap example_session [blue_fast, unknown_question] [] 0 0
                     example_world = (Inl (HTTPException 400 ''Invalid question id''), snd ?u)" .
  have "submit_quiz example_world ''s1'' [blue_fast, unknown_question] =
          (Inl (HTTPException 400 ''Invalid question id''), snd ?u)"
    by (simp only: submit_quiz_def example_session_lookup example_questions option.case Let_def
          l prod.case sum.case)
  moreover have "quiz_responses example_world = []"
    "map m_item_id (mastery example_world) = [''f1'']"
    by code_simp+
  moreover have "map r_question_id (quiz_responses (snd ?u)) = [''q1'']" by code_simp
  moreover have "map m_item_id (mastery (snd ?u)) = [''f1'', ''k1'']" by code_simp
  moreover have "map s_status (quiz_sessions (snd ?u)) = [Some ''active'']" by code_simp
  ultimately show ?thesis by simp
qed


section \<open>Session completion\<close>

























end
